theory Spec2Isabelle
  imports Main "HOL-Library.Word"
begin

unbundle bit_operations_syntax

section \<open>Bytes, errors and the socket\<close>

text \<open>
  Go's \<open>string\<close> and \<open>[]byte\<close> are both byte sequences; a byte is a \<open>char\<close> (8 bits) and
  both are \<open>string\<close> here. \<open>uint32\<close> is \<open>32 word\<close>, \<open>uint16\<close> is \<open>16 word\<close>.
\<close>

datatype error =
    EOF                                 \<comment> \<open>\<open>io.EOF\<close>\<close>
  | ErrUnexpectedEOF                    \<comment> \<open>\<open>io.ErrUnexpectedEOF\<close>\<close>
  | ErrBadConn                          \<comment> \<open>\<open>driver.ErrBadConn\<close>\<close>
  | NetError string                     \<comment> \<open>an error of \<open>net.Conn\<close>\<close>
  | PgError "(char \<times> string) list"      \<comment> \<open>the result of \<open>PgMessage.ParseError\<close>\<close>
  | UnexpectedAuthResponse char         \<comment> \<open>\<open>fmt.Errorf("unexpected authentication response: %q", id)\<close>\<close>

text \<open>
  The socket \<open>net.Conn\<close> together with its \<open>bufio.Reader\<close>: the bytes the server still
  delivers before its side ends, the buffers handed to successful \<open>Write\<close> calls (oldest
  first), the error with which every \<open>Write\<close> fails (if any), and whether \<open>Close\<close> was called.
  A \<open>Write\<close> that fails is taken to write nothing, and the end of the delivered bytes
  is the end of the stream (\<open>EOF\<close>): a read never blocks for ever.
\<close>

record Conn =
  incoming :: string
  written :: "string list"
  writeErr :: "error option"
  closed :: bool

definition Write :: "Conn \<Rightarrow> string \<Rightarrow> Conn \<times> error option" where
  "Write c raw =
     (if closed c then (c, Some (NetError ''use of closed network connection''))
      else case writeErr c of
             Some e \<Rightarrow> (c, Some e)
           | None \<Rightarrow> (c\<lparr>written := written c @ [raw]\<rparr>, None))"

definition Close :: "Conn \<Rightarrow> Conn" where
  "Close c = c\<lparr>closed := True\<rparr>"

text \<open>\<open>bufio.Reader.ReadByte\<close>: one byte, or the error of the exhausted stream.\<close>

definition ReadByte :: "Conn \<Rightarrow> error + (char \<times> Conn)" where
  "ReadByte c =
     (case incoming c of
        [] \<Rightarrow> Inl EOF
      | b # bs \<Rightarrow> Inr (b, c\<lparr>incoming := bs\<rparr>))"

text \<open>\<open>bufio.Reader.Peek n\<close>: the next \<open>n\<close> bytes without consuming them, or an error when
  the stream ends before \<open>n\<close> bytes.\<close>

definition Peek :: "Conn \<Rightarrow> nat \<Rightarrow> error + string" where
  "Peek c n =
     (if length (incoming c) < n then Inl EOF else Inr (take n (incoming c)))"

text \<open>\<open>io.ReadFull\<close> into a buffer of \<open>n\<close> bytes: exactly \<open>n\<close> bytes, or \<open>EOF\<close> when none could
  be read, or \<open>ErrUnexpectedEOF\<close> when the stream ended after some; what was read is consumed.\<close>

definition ReadFull :: "Conn \<Rightarrow> nat \<Rightarrow> (error + string) \<times> Conn" where
  "ReadFull c n =
     (if n \<le> length (incoming c)
        then (Inr (take n (incoming c)), c\<lparr>incoming := drop n (incoming c)\<rparr>)
      else if incoming c = [] then (Inl EOF, c)
      else (Inl ErrUnexpectedEOF, c\<lparr>incoming := []\<rparr>))"

text \<open>\<open>binary.BigEndian.Uint32\<close> and \<open>Uint16\<close> on the first bytes of a slice (the callers
  check the length), and the big-endian bytes of a number.\<close>

definition Uint32 :: "string \<Rightarrow> 32 word" where
  "Uint32 bs = word_of_nat (foldl (\<lambda>a c. a * 256 + of_char c) 0 (take 4 bs))"

definition Uint16 :: "string \<Rightarrow> 16 word" where
  "Uint16 bs = word_of_nat (foldl (\<lambda>a c. a * 256 + of_char c) 0 (take 2 bs))"

definition PutUint32 :: "nat \<Rightarrow> string" where
  "PutUint32 n = [char_of (n div 16777216), char_of (n div 65536), char_of (n div 256), char_of n]"

definition PutUint16 :: "nat \<Rightarrow> string" where
  "PutUint16 n = [char_of (n div 256), char_of n]"

section \<open>Messages\<close>

record PgMessage =
  Identifies :: char
  Len :: "32 word"
  Content :: string
  Position :: nat

text \<open>
  Modelled from the spec: the message identifiers (the declarations of the \<open>Identifies\<close>
  constants are not among the sources). Section 6 of the specification lists them.
\<close>

definition IdentifiesAuth :: char where "IdentifiesAuth = CHR ''R''"
definition IdentifiesBackendKeyData :: char where "IdentifiesBackendKeyData = CHR ''K''"
definition IdentifiesCommandComplete :: char where "IdentifiesCommandComplete = CHR ''C''"
definition IdentifiesDataRow :: char where "IdentifiesDataRow = CHR ''D''"
definition IdentifiesErrorResponse :: char where "IdentifiesErrorResponse = CHR ''E''"
definition IdentifiesParameterDescription :: char where "IdentifiesParameterDescription = CHR ''t''"
definition IdentifiesParameterStatus :: char where "IdentifiesParameterStatus = CHR ''S''"
definition IdentifiesReadyForQuery :: char where "IdentifiesReadyForQuery = CHR ''Z''"
definition IdentifiesRowDescription :: char where "IdentifiesRowDescription = CHR ''T''"
definition IdentifiesBind :: char where "IdentifiesBind = CHR ''B''"
definition IdentifiesClose :: char where "IdentifiesClose = CHR ''C''"
definition IdentifiesDescribe :: char where "IdentifiesDescribe = CHR ''D''"
definition IdentifiesExecute :: char where "IdentifiesExecute = CHR ''E''"
definition IdentifiesParse :: char where "IdentifiesParse = CHR ''P''"
definition IdentifiesPasswordMessage :: char where "IdentifiesPasswordMessage = CHR ''p''"
definition IdentifiesQuery :: char where "IdentifiesQuery = CHR ''Q''"
definition IdentifiesSync :: char where "IdentifiesSync = CHR ''S''"
definition IdentifiesTerminate :: char where "IdentifiesTerminate = CHR ''X''"

text \<open>
  Modelled from the spec: the message builder of \<open>PgMessage\<close> (\<open>NewPgMessage\<close>, \<open>addByte\<close>,
  \<open>addInt16\<close>, \<open>addInt32\<close>, \<open>addString\<close>, \<open>addBytes\<close>, \<open>encode\<close>), which is not among the
  sources. Section 4.1: a body assembled from primitive writes (int16/int32 big-endian,
  NUL-terminated string, raw bytes, single byte), framed as
  \<open>id (1B) \<parallel> len (4B BE, = 4 + |body|) \<parallel> body\<close>. The integer arguments are Go \<open>int\<close>s, of
  which the low 16 or 32 bits are written.
\<close>

definition NewPgMessage :: "char \<Rightarrow> PgMessage" where
  "NewPgMessage ident = \<lparr>Identifies = ident, Len = 0, Content = [], Position = 0\<rparr>"

definition addBytes :: "PgMessage \<Rightarrow> string \<Rightarrow> PgMessage" where
  "addBytes m bs = m\<lparr>Content := Content m @ bs\<rparr>"

definition addByte :: "PgMessage \<Rightarrow> char \<Rightarrow> PgMessage" where
  "addByte m b = addBytes m [b]"

definition addInt16 :: "PgMessage \<Rightarrow> int \<Rightarrow> PgMessage" where
  "addInt16 m i = addBytes m (PutUint16 (nat (i mod 65536)))"

definition addInt32 :: "PgMessage \<Rightarrow> int \<Rightarrow> PgMessage" where
  "addInt32 m i = addBytes m (PutUint32 (nat (i mod 4294967296)))"

definition addString :: "PgMessage \<Rightarrow> string \<Rightarrow> PgMessage" where
  "addString m s = addBytes m (s @ [CHR 0x00])"

definition encode :: "PgMessage \<Rightarrow> string" where
  "encode m = Identifies m # PutUint32 ((4 + length (Content m)) mod 4294967296) @ Content m"

text \<open>
  Modelled from the spec: the read cursor of \<open>PgMessage\<close> (\<open>byte\<close>, \<open>int16\<close>, \<open>int32\<close>,
  \<open>string\<close>, \<open>bytes\<close>), which is not among the sources. Section 3: a cursor over the
  payload, starting past the length field, that reads int16 BE, int32 BE, one byte, a
  NUL-terminated string and \<open>n\<close> raw bytes and never reads beyond the payload. A read
  that would pass the end of the payload has no result (\<open>None\<close>): the specification
  gives it none, and in Go a slice index out of range panics.
\<close>

definition bytes :: "PgMessage \<Rightarrow> nat \<Rightarrow> (string \<times> PgMessage) option" where
  "bytes m n =
     (if Position m + n \<le> length (Content m)
        then Some (take n (drop (Position m) (Content m)), m\<lparr>Position := Position m + n\<rparr>)
      else None)"

definition byte :: "PgMessage \<Rightarrow> (char \<times> PgMessage) option" where
  "byte m = (case bytes m 1 of Some ([b], m') \<Rightarrow> Some (b, m') | _ \<Rightarrow> None)"

definition int16 :: "PgMessage \<Rightarrow> (16 word \<times> PgMessage) option" where
  "int16 m = (case bytes m 2 of Some (bs, m') \<Rightarrow> Some (Uint16 bs, m') | None \<Rightarrow> None)"

definition int32 :: "PgMessage \<Rightarrow> (32 word \<times> PgMessage) option" where
  "int32 m = (case bytes m 4 of Some (bs, m') \<Rightarrow> Some (Uint32 bs, m') | None \<Rightarrow> None)"

definition string :: "PgMessage \<Rightarrow> (string \<times> PgMessage) option" where
  "string m =
     (let rest = drop (Position m) (Content m); s = takeWhile (\<lambda>c. c \<noteq> CHR 0x00) rest
      in if length s < length rest
           then Some (s, m\<lparr>Position := Position m + length s + 1\<rparr>)
         else None)"

text \<open>
  Modelled from the spec: \<open>PgMessage.ParseError\<close>, which is not among the sources.
  Section 7: the structured error is parsed from the fields of the \<open>E\<close> message (severity
  \<open>S\<close>, SQLSTATE \<open>C\<close>, message \<open>M\<close>, ...): a field is a type byte and a NUL-terminated
  string, and a zero byte (or the end of the payload) ends the fields.
\<close>

function errorFields :: "string \<Rightarrow> (char \<times> string) list" where
  "errorFields [] = []"
| "errorFields (t # rest) =
     (if t = CHR 0x00 then []
      else (t, takeWhile (\<lambda>c. c \<noteq> CHR 0x00) rest)
             # errorFields (drop 1 (dropWhile (\<lambda>c. c \<noteq> CHR 0x00) rest)))"
  by pat_completeness auto
termination
proof (relation "measure length", goal_cases)
  case 1
  show ?case by simp
next
  case (2 t rest)
  have "length (dropWhile (\<lambda>c. c \<noteq> CHR 0x00) rest) \<le> length rest"
    by (rule length_dropWhile_le)
  then show ?case by simp
qed

definition ParseError :: "PgMessage \<Rightarrow> error" where
  "ParseError m = PgError (errorFields (drop (Position m) (Content m)))"

text \<open>
  Modelled from the spec: the column descriptions and \<open>PgMessage.columns\<close>, which are not
  among the sources. Section 3: name (string), table OID (int32), column attribute number
  (int16), type OID (int32), type size (int16), type modifier (int32), format code (int16);
  a RowDescription carries an int16 count and that many descriptions.
\<close>

record PgColumn =
  Name :: string
  TableOid :: "32 word"
  Index :: "16 word"
  Oid :: "32 word"
  TypeLen :: "16 word"
  TypeModifier :: "32 word"
  Format :: "16 word"

definition column :: "PgMessage \<Rightarrow> (PgColumn \<times> PgMessage) option" where
  "column m =
     (case string m of None \<Rightarrow> None | Some (name, m1) \<Rightarrow>
     (case int32 m1 of None \<Rightarrow> None | Some (toid, m2) \<Rightarrow>
     (case int16 m2 of None \<Rightarrow> None | Some (idx, m3) \<Rightarrow>
     (case int32 m3 of None \<Rightarrow> None | Some (oid, m4) \<Rightarrow>
     (case int16 m4 of None \<Rightarrow> None | Some (tlen, m5) \<Rightarrow>
     (case int32 m5 of None \<Rightarrow> None | Some (tmod, m6) \<Rightarrow>
     (case int16 m6 of None \<Rightarrow> None | Some (fmt, m7) \<Rightarrow>
        Some (\<lparr>Name = name, TableOid = toid, Index = idx, Oid = oid, TypeLen = tlen,
               TypeModifier = tmod, Format = fmt\<rparr>, m7))))))))"

fun columns_loop :: "nat \<Rightarrow> PgMessage \<Rightarrow> PgColumn list \<Rightarrow> PgColumn list option" where
  "columns_loop 0 m cols = Some cols"
| "columns_loop (Suc k) m cols =
     (case column m of None \<Rightarrow> None | Some (c, m') \<Rightarrow> columns_loop k m' (cols @ [c]))"

definition columns :: "PgMessage \<Rightarrow> PgColumn list option" where
  "columns m = (case int16 m of None \<Rightarrow> None | Some (n, m') \<Rightarrow> columns_loop (unat n) m' [])"

section \<open>The session\<close>

text \<open>The part of \<open>helper.DataSourceName\<close> that the engine reads.\<close>

record DataSourceName =
  Password :: string
  Parameter :: "string \<rightharpoonup> string"

text \<open>
  \<open>PgIO\<close>. The fields \<open>conn\<close> and \<open>reader\<close> are the one \<open>Conn\<close>; \<open>IOError\<close> is \<open>None\<close> for
  Go's \<open>nil\<close>. The TLS configuration takes no part in what follows.
\<close>

record PgIO =
  dsn :: DataSourceName
  conn :: Conn
  txStatus :: char
  serverPid :: "32 word"
  ServerConf :: "string \<rightharpoonup> string"
  backendKey :: "32 word"
  Location :: "string option"
  IOError :: "error option"

text \<open>
  \<open>receivePgMsg\<close>: the loop reads one message per round, appends it to \<open>ms\<close> and returns
  after the first message whose identifier is \<open>sep\<close>. Only a failing \<open>ReadByte\<close> sets
  \<open>IOError\<close>. The buffer of \<open>Len\<close> bytes is filled from the length field on, so that
  \<open>Content\<close> begins with the four length bytes and \<open>Position\<close> is 4.
\<close>

function receivePgMsg :: "char \<Rightarrow> PgIO \<Rightarrow> PgMessage list \<Rightarrow> PgMessage list \<times> error option \<times> PgIO" where
  "receivePgMsg sep pio ms =
     (case ReadByte (conn pio) of
        Inl e \<Rightarrow> (ms, Some e, pio\<lparr>IOError := Some e\<rparr>)
      | Inr (ident, c1) \<Rightarrow>
         (case Peek c1 4 of
            Inl e \<Rightarrow> (ms, Some e, pio\<lparr>conn := c1\<rparr>)
          | Inr hdr \<Rightarrow>
             (case ReadFull c1 (unat (Uint32 hdr)) of
                (Inl e, c2) \<Rightarrow> (ms, Some e, pio\<lparr>conn := c2\<rparr>)
              | (Inr content, c2) \<Rightarrow>
                  (let msg = \<lparr>Identifies = ident, Len = Uint32 hdr, Content = content, Position = 4\<rparr>
                   in if ident = sep then (ms @ [msg], None, pio\<lparr>conn := c2\<rparr>)
                      else receivePgMsg sep (pio\<lparr>conn := c2\<rparr>) (ms @ [msg])))))"
  by pat_completeness auto
termination
  by (relation "measure (\<lambda>(sep, pio, ms). length (incoming (conn pio)))")
     (auto simp: ReadByte_def ReadFull_def split: list.splits if_splits)

text \<open>\<open>send\<close>: one \<open>Write\<close> of the concatenated frames; its outcome is stored in \<open>IOError\<close>,
  whatever was there before.\<close>

definition send :: "PgIO \<Rightarrow> PgMessage list \<Rightarrow> PgIO \<times> error option" where
  "send pio list =
     (let raw = concat (map encode list);
          (c, e) = Write (conn pio) raw
      in (pio\<lparr>conn := c, IOError := e\<rparr>, e))"

section \<open>The query engines\<close>

text \<open>
  The body of a DataRow (\<open>QueryNoArgs\<close> and \<open>ParseQuery\<close> hold the same loop): an int16
  count, then per column an int32 \<open>l\<close>; \<open>l = 4294967295\<close> appends \<open>nil\<close> (here \<open>None\<close>) to
  the row, any other \<open>l\<close> appends the next \<open>l\<close> bytes; \<open>l\<close> itself goes to \<open>rowLen\<close>.
\<close>

fun dataRow_loop ::
  "nat \<Rightarrow> PgMessage \<Rightarrow> 32 word list \<Rightarrow> string option list
     \<Rightarrow> (32 word list \<times> string option list) option" where
  "dataRow_loop 0 v rowLen row = Some (rowLen, row)"
| "dataRow_loop (Suc k) v rowLen row =
     (case int32 v of
        None \<Rightarrow> None
      | Some (l, v1) \<Rightarrow>
          if l = 4294967295 then dataRow_loop k v1 (rowLen @ [l]) (row @ [None])
          else (case bytes v1 (unat l) of
                  None \<Rightarrow> None
                | Some (b, v2) \<Rightarrow> dataRow_loop k v2 (rowLen @ [l]) (row @ [Some b])))"

definition dataRow :: "PgMessage \<Rightarrow> (32 word list \<times> string option list) option" where
  "dataRow v = (case int16 v of None \<Rightarrow> None | Some (n, v') \<Rightarrow> dataRow_loop (unat n) v' [] [])"

text \<open>
  \<open>QueryNoArgs\<close>. The result is \<open>None\<close> when a cursor read passes the end of a payload;
  otherwise the session, \<open>cols\<close>, \<open>fieldLen\<close>, \<open>data\<close> (both \<open>nil\<close> until allocated) and
  \<open>err\<close>.
\<close>

type_synonym rowsAcc = "PgIO \<times> PgColumn list \<times> 32 word list list \<times> string option list list \<times> error option"

fun QueryNoArgs_loop :: "PgMessage list \<Rightarrow> rowsAcc \<Rightarrow> rowsAcc option" where
  "QueryNoArgs_loop [] acc = Some acc"
| "QueryNoArgs_loop (v # vs) (pio, cols, fieldLen, data, err) =
     (if Identifies v = IdentifiesErrorResponse
        then QueryNoArgs_loop vs (pio, cols, fieldLen, data, Some (ParseError v))
      else if Identifies v = IdentifiesDataRow
        then (case dataRow v of
                None \<Rightarrow> None
              | Some (rowLen, row) \<Rightarrow>
                  QueryNoArgs_loop vs (pio, cols, fieldLen @ [rowLen], data @ [row], err))
      else if Identifies v = IdentifiesRowDescription
        then (case columns v of
                None \<Rightarrow> None
              | Some cs \<Rightarrow> QueryNoArgs_loop vs (pio, cs, fieldLen, data, err))
      else if Identifies v = IdentifiesReadyForQuery
        then (case byte v of
                None \<Rightarrow> None
              | Some (b, v') \<Rightarrow> QueryNoArgs_loop vs (pio\<lparr>txStatus := b\<rparr>, cols, fieldLen, data, err))
      else QueryNoArgs_loop vs (pio, cols, fieldLen, data, err))"

definition QueryNoArgs ::
  "PgIO \<Rightarrow> string
     \<Rightarrow> (PgIO \<times> PgColumn list \<times> 32 word list list option \<times> string option list list option
          \<times> error option) option" where
  "QueryNoArgs pio query =
     (let sq = addString (NewPgMessage IdentifiesQuery) query;
          (pio1, err) = send pio [sq]
      in case err of
           Some e \<Rightarrow> Some (pio1, [], None, None, Some e)
         | None \<Rightarrow>
            (case receivePgMsg IdentifiesReadyForQuery pio1 [] of
               (list, Some e, pio2) \<Rightarrow> Some (pio2, [], Some [], Some [], Some e)
             | (list, None, pio2) \<Rightarrow>
                 map_option (\<lambda>(pio3, cols, fieldLen, data, err). (pio3, cols, Some fieldLen, Some data, err))
                   (QueryNoArgs_loop list (pio2, [], [], [], None))))"

text \<open>\<open>Parse\<close>: Parse, Describe and Sync in one write; the parameter OIDs and the columns
  come from the answer.\<close>

fun parameters_loop :: "nat \<Rightarrow> PgMessage \<Rightarrow> 32 word list \<Rightarrow> 32 word list option" where
  "parameters_loop 0 v parameters = Some parameters"
| "parameters_loop (Suc k) v parameters =
     (case int32 v of
        None \<Rightarrow> None
      | Some (oid, v') \<Rightarrow> parameters_loop k v' (parameters @ [oid]))"

type_synonym parseAcc = "PgIO \<times> PgColumn list \<times> 32 word list \<times> error option"

fun Parse_loop :: "PgMessage list \<Rightarrow> parseAcc \<Rightarrow> parseAcc option" where
  "Parse_loop [] acc = Some acc"
| "Parse_loop (v # vs) (pio, cols, parameters, err) =
     (if Identifies v = IdentifiesErrorResponse
        then Parse_loop vs (pio, cols, parameters, Some (ParseError v))
      else if Identifies v = IdentifiesParameterDescription
        then (case int16 v of
                None \<Rightarrow> None
              | Some (pn, v') \<Rightarrow>
                 (case parameters_loop (unat pn) v' parameters of
                    None \<Rightarrow> None
                  | Some ps \<Rightarrow> Parse_loop vs (pio, cols, ps, err)))
      else if Identifies v = IdentifiesRowDescription
        then (case columns v of
                None \<Rightarrow> None
              | Some cs \<Rightarrow> Parse_loop vs (pio, cs, parameters, err))
      else if Identifies v = IdentifiesReadyForQuery
        then (case byte v of
                None \<Rightarrow> None
              | Some (b, v') \<Rightarrow> Parse_loop vs (pio\<lparr>txStatus := b\<rparr>, cols, parameters, err))
      else Parse_loop vs (pio, cols, parameters, err))"

definition Parse :: "PgIO \<Rightarrow> string \<Rightarrow> string \<Rightarrow> parseAcc option" where
  "Parse pio name query =
     (let reqParse = addInt16 (addString (addString (NewPgMessage IdentifiesParse) name) query) 0;
          reqDes = addString (addByte (NewPgMessage IdentifiesDescribe) (CHR ''S'')) name;
          (pio1, err) = send pio [reqParse, reqDes, NewPgMessage IdentifiesSync]
      in case err of
           Some e \<Rightarrow> Some (pio1, [], [], Some e)
         | None \<Rightarrow>
            (case receivePgMsg IdentifiesReadyForQuery pio1 [] of
               (list, Some e, pio2) \<Rightarrow> Some (pio2, [], [], Some e)
             | (list, None, pio2) \<Rightarrow> Parse_loop list (pio2, [], [], None)))"

text \<open>
  The Bind message of \<open>ParseExec\<close> and \<open>ParseQuery\<close>. An argument is \<open>None\<close> for Go's
  \<open>nil\<close>; \<open>value2bytes\<close> (the value codec, which is not among the sources) is a parameter.
\<close>

fun bindArgs :: "('v \<Rightarrow> string) \<Rightarrow> PgMessage \<Rightarrow> 'v option list \<Rightarrow> PgMessage" where
  "bindArgs value2bytes rBind [] = rBind"
| "bindArgs value2bytes rBind (arg # args) =
     (case arg of
        None \<Rightarrow> bindArgs value2bytes (addInt32 rBind (- 1)) args
      | Some a \<Rightarrow>
          (let b = value2bytes a
           in bindArgs value2bytes (addBytes (addInt32 rBind (int (length b))) b) args))"

definition rBind :: "('v \<Rightarrow> string) \<Rightarrow> string \<Rightarrow> 'v option list \<Rightarrow> PgMessage" where
  "rBind value2bytes name args =
     addInt16
       (bindArgs value2bytes
          (addInt16 (addInt16 (addString (addString (NewPgMessage IdentifiesBind) []) name) 0)
             (int (length args)))
          args)
       0"

definition rExec :: PgMessage where
  "rExec = addInt32 (addString (NewPgMessage IdentifiesExecute) []) 0"

text \<open>
  \<open>strings.Split\<close> with a separator of one byte, and \<open>strconv.Atoi\<close> (where \<open>int\<close> has 64
  bits): an optional sign and decimal digits; the value comes with \<open>True\<close> when the text
  is a number in range; a syntax error gives 0 and a number out of range the nearest
  bound.
\<close>

fun Split :: "string \<Rightarrow> char \<Rightarrow> string list" where
  "Split [] sep = [[]]"
| "Split (c # cs) sep =
     (if c = sep then [] # Split cs sep
      else (case Split cs sep of
              w # ws \<Rightarrow> (c # w) # ws
            | [] \<Rightarrow> [[c]]))"

definition isDigit :: "char \<Rightarrow> bool" where
  "isDigit c = (48 \<le> (of_char c :: nat) \<and> (of_char c :: nat) \<le> 57)"

definition digitsValue :: "string \<Rightarrow> int" where
  "digitsValue ds = foldl (\<lambda>a c. a * 10 + (int (of_char c) - 48)) 0 ds"

definition Atoi :: "string \<Rightarrow> int \<times> bool" where
  "Atoi s =
     (let neg = (s \<noteq> [] \<and> hd s = CHR ''-'');
          ds = (if s \<noteq> [] \<and> (hd s = CHR ''-'' \<or> hd s = CHR ''+'') then tl s else s)
      in if ds = [] \<or> \<not> list_all isDigit ds then (0, False)
         else (let n = (if neg then - digitsValue ds else digitsValue ds)
               in if n > 9223372036854775807 then (9223372036854775807, False)
                  else if n < - 9223372036854775808 then (- 9223372036854775808, False)
                  else (n, True)))"

text \<open>\<open>ParseExec\<close>: the count \<open>n\<close> is taken from a CommandComplete tag that splits into
  exactly two fields.\<close>

type_synonym execAcc = "PgIO \<times> int \<times> error option"

fun ParseExec_loop :: "PgMessage list \<Rightarrow> execAcc \<Rightarrow> execAcc option" where
  "ParseExec_loop [] acc = Some acc"
| "ParseExec_loop (v # vs) (pio, n, err) =
     (if Identifies v = IdentifiesErrorResponse
        then ParseExec_loop vs (pio, n, Some (ParseError v))
      else if Identifies v = IdentifiesCommandComplete
        then (case string v of
                None \<Rightarrow> None
              | Some (tag, v') \<Rightarrow>
                 (let rs = Split tag (CHR '' '')
                  in if length rs = 2 then ParseExec_loop vs (pio, fst (Atoi (rs ! 1)), err)
                     else ParseExec_loop vs (pio, n, err)))
      else if Identifies v = IdentifiesReadyForQuery
        then (case byte v of
                None \<Rightarrow> None
              | Some (b, v') \<Rightarrow> ParseExec_loop vs (pio\<lparr>txStatus := b\<rparr>, n, err))
      else ParseExec_loop vs (pio, n, err))"

definition ParseExec :: "('v \<Rightarrow> string) \<Rightarrow> PgIO \<Rightarrow> string \<Rightarrow> 'v option list \<Rightarrow> execAcc option" where
  "ParseExec value2bytes pio name args =
     (let (pio1, err) = send pio [rBind value2bytes name args, rExec, NewPgMessage IdentifiesSync]
      in case err of
           Some e \<Rightarrow> Some (pio1, 0, Some e)
         | None \<Rightarrow>
            (case receivePgMsg IdentifiesReadyForQuery pio1 [] of
               (list, Some e, pio2) \<Rightarrow> Some (pio2, 0, Some e)
             | (list, None, pio2) \<Rightarrow> ParseExec_loop list (pio2, 0, None)))"

text \<open>\<open>ParseQuery\<close>: the rows of the answer; \<open>fieldLen\<close> and \<open>data\<close> are allocated only
  after the answer was received.\<close>

type_synonym queryAcc = "PgIO \<times> 32 word list list \<times> string option list list \<times> error option"

fun ParseQuery_loop :: "PgMessage list \<Rightarrow> queryAcc \<Rightarrow> queryAcc option" where
  "ParseQuery_loop [] acc = Some acc"
| "ParseQuery_loop (v # vs) (pio, fieldLen, data, err) =
     (if Identifies v = IdentifiesErrorResponse
        then ParseQuery_loop vs (pio, fieldLen, data, Some (ParseError v))
      else if Identifies v = IdentifiesDataRow
        then (case dataRow v of
                None \<Rightarrow> None
              | Some (rowLen, row) \<Rightarrow>
                  ParseQuery_loop vs (pio, fieldLen @ [rowLen], data @ [row], err))
      else if Identifies v = IdentifiesReadyForQuery
        then (case byte v of
                None \<Rightarrow> None
              | Some (b, v') \<Rightarrow> ParseQuery_loop vs (pio\<lparr>txStatus := b\<rparr>, fieldLen, data, err))
      else ParseQuery_loop vs (pio, fieldLen, data, err))"

definition ParseQuery ::
  "('v \<Rightarrow> string) \<Rightarrow> PgIO \<Rightarrow> string \<Rightarrow> 'v option list
     \<Rightarrow> (PgIO \<times> 32 word list list option \<times> string option list list option \<times> error option) option" where
  "ParseQuery value2bytes pio name args =
     (let (pio1, err) = send pio [rBind value2bytes name args, rExec, NewPgMessage IdentifiesSync]
      in case err of
           Some e \<Rightarrow> Some (pio1, None, None, Some e)
         | None \<Rightarrow>
            (case receivePgMsg IdentifiesReadyForQuery pio1 [] of
               (list, Some e, pio2) \<Rightarrow> Some (pio2, None, None, Some e)
             | (list, None, pio2) \<Rightarrow>
                 map_option (\<lambda>(pio3, fieldLen, data, err). (pio3, Some fieldLen, Some data, err))
                   (ParseQuery_loop list (pio2, [], [], None))))"

text \<open>\<open>CloseParse\<close> and \<open>Terminate\<close>.\<close>

fun CloseParse_loop :: "PgMessage list \<Rightarrow> PgIO \<times> error option \<Rightarrow> (PgIO \<times> error option) option" where
  "CloseParse_loop [] acc = Some acc"
| "CloseParse_loop (v # vs) (pio, err) =
     (if Identifies v = IdentifiesReadyForQuery
        then (case byte v of
                None \<Rightarrow> None
              | Some (b, v') \<Rightarrow> CloseParse_loop vs (pio\<lparr>txStatus := b\<rparr>, err))
      else if Identifies v = IdentifiesErrorResponse
        then CloseParse_loop vs (pio, Some (ParseError v))
      else CloseParse_loop vs (pio, err))"

definition CloseParse :: "PgIO \<Rightarrow> string \<Rightarrow> (PgIO \<times> error option) option" where
  "CloseParse pio name =
     (let rc = addString (addByte (NewPgMessage IdentifiesClose) (CHR ''S'')) name;
          (pio1, err) = send pio [rc, NewPgMessage IdentifiesSync]
      in case err of
           Some e \<Rightarrow> Some (pio1, Some e)
         | None \<Rightarrow>
            (case receivePgMsg IdentifiesReadyForQuery pio1 [] of
               (list, Some e, pio2) \<Rightarrow> Some (pio2, Some e)
             | (list, None, pio2) \<Rightarrow> CloseParse_loop list (pio2, None)))"

definition Terminate :: "PgIO \<Rightarrow> PgIO \<times> error option" where
  "Terminate pio =
     (let rc = NewPgMessage IdentifiesTerminate;
          (pio1, err) = send pio [rc]
      in case err of
           Some e \<Rightarrow> (pio1\<lparr>conn := Close (conn pio1), IOError := Some ErrBadConn\<rparr>, Some e)
         | None \<Rightarrow> (pio1, None))"

section \<open>Authentication\<close>

text \<open>
  \<open>auth\<close>. \<open>Md5\<close> (the hexadecimal MD5 digest of \<open>crypto/md5\<close>) is a parameter. The
  cases 3 and 5 hold the same block (send the PasswordMessage, receive until the next
  Authentication message, run the loop over what was received): it is \<open>auth_password\<close>,
  and \<open>user\<close> is \<open>pi.dsn.Parameter["user"]\<close>, the empty string when the key is absent. The loop
  over the received messages fails at the first Authentication message whose code is not
  0. A code other than 0, 3 and 5 matches no case of the \<open>switch\<close>, and \<open>err\<close> is still
  \<open>nil\<close> at the final \<open>return\<close>.
\<close>

fun auth_loop :: "PgMessage list \<Rightarrow> error option option" where
  "auth_loop [] = Some None"
| "auth_loop (v # vs) =
     (if Identifies v = IdentifiesAuth
        then (case int32 v of
                None \<Rightarrow> None
              | Some (code, v') \<Rightarrow>
                  if code \<noteq> 0 then Some (Some (UnexpectedAuthResponse (Identifies v)))
                  else auth_loop vs)
      else auth_loop vs)"

definition user :: "PgIO \<Rightarrow> string" where
  "user pio = (case Parameter (dsn pio) ''user'' of None \<Rightarrow> [] | Some u \<Rightarrow> u)"

definition auth_password :: "PgIO \<Rightarrow> string \<Rightarrow> (PgIO \<times> error option) option" where
  "auth_password pio body =
     (let (pio1, err) = send pio [addString (NewPgMessage IdentifiesPasswordMessage) body]
      in case err of
           Some e \<Rightarrow> Some (pio1, Some e)
         | None \<Rightarrow>
            (case receivePgMsg IdentifiesAuth pio1 [] of
               (list, Some e, pio2) \<Rightarrow> Some (pio2, Some e)
             | (list, None, pio2) \<Rightarrow> map_option (\<lambda>r. (pio2, r)) (auth_loop list)))"

definition auth :: "(string \<Rightarrow> string) \<Rightarrow> PgIO \<Rightarrow> PgMessage \<Rightarrow> (PgIO \<times> error option) option" where
  "auth Md5 pio msg =
     (case int32 msg of
        None \<Rightarrow> None
      | Some (code, msg1) \<Rightarrow>
          if code = 0 then Some (pio, None)
          else if code = 3 then auth_password pio (Password (dsn pio))
          else if code = 5
            then (case bytes msg1 4 of
                    None \<Rightarrow> None
                  | Some (salt, msg2) \<Rightarrow>
                      auth_password pio (''md5'' @ Md5 (Md5 (Password (dsn pio) @ user pio) @ salt)))
          else Some (pio, None))"

section \<open>Prepared statements\<close>

text \<open>
  \<open>crc32.ChecksumIEEE\<close> (the reflected polynomial \<open>0xEDB88320\<close>, bit by bit) and the
  verb \<open>%x\<close> of \<open>fmt.Sprintf\<close> on an unsigned number: lower-case hexadecimal digits
  without leading zeros.
\<close>

definition crc32_bit :: "32 word \<Rightarrow> 32 word" where
  "crc32_bit c = (if bit c 0 then drop_bit 1 c XOR 0xEDB88320 else drop_bit 1 c)"

definition crc32_update :: "32 word \<Rightarrow> char \<Rightarrow> 32 word" where
  "crc32_update c b =
     crc32_bit (crc32_bit (crc32_bit (crc32_bit (crc32_bit (crc32_bit (crc32_bit (crc32_bit
       (c XOR word_of_nat (of_char b)))))))))"

definition ChecksumIEEE :: "string \<Rightarrow> 32 word" where
  "ChecksumIEEE bs = foldl crc32_update 0xFFFFFFFF bs XOR 0xFFFFFFFF"

definition hexDigit :: "nat \<Rightarrow> char" where
  "hexDigit d = ''0123456789abcdef'' ! d"

fun Sprintf_x :: "nat \<Rightarrow> string" where
  "Sprintf_x n = (if n < 16 then [hexDigit n] else Sprintf_x (n div 16) @ [hexDigit (n mod 16)])"

text \<open>
  \<open>PgStmt\<close>, \<open>PgConn\<close> and \<open>PgRows\<close>. A statement points back to its connection
  (\<open>pgConn\<close>): here the methods of a statement take the connection as an argument and
  return it updated. The statement cache \<open>stmts\<close> maps a name to the statement; no
  field of a statement is written after \<open>NewPgStmt\<close> has stored it. The field
  \<open>resultSig\<close> refers to a channel, which is an object of its own: its state (see
  \<open>chan\<close> below) is not part of the statement but is passed to the methods that
  operate on it. The log output is left out; a field whose name is taken already carries
  the prefix \<open>st_\<close> or \<open>rows_\<close>.
\<close>

record PgStmt =
  st_Identifies :: string
  Sql :: string
  st_columns :: "PgColumn list"
  parameterTypes :: "32 word list"

record PgConn =
  io :: PgIO
  stmts :: "string \<rightharpoonup> PgStmt"

record PgRows =
  rows_location :: "string option"
  rows_columns :: "PgColumn list"
  rows_parameterTypes :: "32 word list"
  fieldLen :: "32 word list list option"
  rows :: "string option list list option"

definition NewPgStmt :: "PgConn \<Rightarrow> string \<Rightarrow> (PgConn \<times> PgStmt option \<times> error option) option" where
  "NewPgStmt c query =
     (if IOError (io c) \<noteq> None then Some (c, None, Some ErrBadConn)
      else (let ident = Sprintf_x (unat (ChecksumIEEE query))
            in case stmts c ident of
                 Some st \<Rightarrow> Some (c, Some st, None)
               | None \<Rightarrow>
                  (case Parse (io c) ident query of
                     None \<Rightarrow> None
                   | Some (pio, cols, params, err) \<Rightarrow>
                       (let st = \<lparr>st_Identifies = ident, Sql = query, st_columns = cols,
                                  parameterTypes = params\<rparr>
                        in Some (c\<lparr>io := pio, stmts := (stmts c)(ident \<mapsto> st)\<rparr>, Some st, err)))))"





definition PgStmt_Query ::
  "('v \<Rightarrow> string) \<Rightarrow> PgConn \<Rightarrow> PgStmt \<Rightarrow> 'v option list \<Rightarrow> (PgConn \<times> PgRows option \<times> error option) option" where
  "PgStmt_Query value2bytes c s args =
     map_option
       (\<lambda>(pio, fl, rs, err).
          (c\<lparr>io := pio\<rparr>,
           Some \<lparr>rows_location = None, rows_columns = st_columns s,
                 rows_parameterTypes = parameterTypes s, fieldLen = fl, rows = rs\<rparr>,
           None))
       (ParseQuery value2bytes (io c) (st_Identifies s) args)"








section \<open>Example sessions and the vocabulary of the properties\<close>

text \<open>
  A writable socket on which the server delivers the bytes \<open>bs\<close> and then ends its side;
  a session on it; a connection with an empty statement cache; the same connection after
  a read has met the end of the stream and set the flag \<open>IOError\<close>; a prepared
  statement; and a backend frame: identifier, length (counting itself), body.
\<close>

definition example_conn :: "string \<Rightarrow> Conn" where
  "example_conn bs = \<lparr>incoming = bs, written = [], writeErr = None, closed = False\<rparr>"

definition example_io :: "string \<Rightarrow> PgIO" where
  "example_io bs =
     \<lparr>dsn = \<lparr>Password = ''secret'', Parameter = [''user'' \<mapsto> ''alice'']\<rparr>,
      conn = example_conn bs, txStatus = CHR ''I'', serverPid = 4242, ServerConf = Map.empty,
      backendKey = 7, Location = None, IOError = None\<rparr>"

definition example_pgconn :: "string \<Rightarrow> PgConn" where
  "example_pgconn bs = \<lparr>io = example_io bs, stmts = Map.empty\<rparr>"


definition example_stmt :: PgStmt where
  "example_stmt = \<lparr>st_Identifies = ''h'', Sql = ''SELECT 1/0'', st_columns = [], parameterTypes = []\<rparr>"

definition frame :: "char \<Rightarrow> string \<Rightarrow> string" where
  "frame ident body = ident # PutUint32 (4 + length body) @ body"

text \<open>An ErrorResponse with the fields \<open>S\<close> and \<open>C\<close>, and a ReadyForQuery with status
  \<open>I\<close>, as the server frames them.\<close>

definition error_frame :: string where
  "error_frame =
     frame (CHR ''E'') (CHR ''S'' # ''ERROR'' @ CHR 0x00 # CHR ''C'' # ''42601'' @ [CHR 0x00, CHR 0x00])"

definition ready_frame :: string where
  "ready_frame = frame (CHR ''Z'') ''I''"

text \<open>
  The answer of the server to Parse, Describe and Sync for a statement without parameters
  and without result columns; the statement that \<open>NewPgStmt\<close> makes of \<open>SELECT 1\<close>; and
  the connection after that statement was prepared on \<open>example_pgconn\<close> and the answer was
  consumed, with the flag \<open>IOError\<close> as given.
\<close>

definition parse_answer :: string where
  "parse_answer =
     frame (CHR ''1'') [] @ frame (CHR ''t'') [CHR 0x00, CHR 0x00] @ frame (CHR ''n'') [] @ ready_frame"

definition example_select :: PgStmt where
  "example_select = \<lparr>st_Identifies = ''667f399b'', Sql = ''SELECT 1'', st_columns = [], parameterTypes = []\<rparr>"

definition example_prepared :: "error option \<Rightarrow> PgConn" where
  "example_prepared flag =
     \<lparr>io = (example_io [])
        \<lparr>conn := (example_conn [])
           \<lparr>written :=
              [CHR ''P'' # [CHR 0x00, CHR 0x00, CHR 0x00, CHR 0x18] @ ''667f399b'' @ [CHR 0x00]
                 @ ''SELECT 1'' @ [CHR 0x00, CHR 0x00, CHR 0x00]
               @ CHR ''D'' # [CHR 0x00, CHR 0x00, CHR 0x00, CHR 0x0E, CHR ''S''] @ ''667f399b'' @ [CHR 0x00]
               @ CHR ''S'' # [CHR 0x00, CHR 0x00, CHR 0x00, CHR 0x04]]\<rparr>,
         IOError := flag\<rparr>,
      stmts = [''667f399b'' \<mapsto> example_select]\<rparr>"

text \<open>\<open>stmts_named c\<close>: every statement of the cache is stored under its own name, as
  \<open>NewPgStmt\<close> stores it.\<close>

definition stmts_named :: "PgConn \<Rightarrow> bool" where
  "stmts_named c = (\<forall>k st. stmts c k = Some st \<longrightarrow> st_Identifies st = k)"

text \<open>
  An Authentication message that asks for an MD5 password with the salt \<open>01 02 03 04\<close>,
  as the handshake hands it to \<open>auth\<close>; the frame of an Authentication message with the
  code 0; and a stand-in for the digest function that shows its argument.
\<close>

definition md5_request :: PgMessage where
  "md5_request =
     \<lparr>Identifies = IdentifiesAuth, Len = 12,
      Content = [CHR 0x00, CHR 0x00, CHR 0x00, CHR 0x0C, CHR 0x00, CHR 0x00, CHR 0x00, CHR 0x05,
                 CHR 0x01, CHR 0x02, CHR 0x03, CHR 0x04],
      Position = 4\<rparr>"

definition auth_ok_frame :: string where
  "auth_ok_frame = frame (CHR ''R'') [CHR 0x00, CHR 0x00, CHR 0x00, CHR 0x00]"

definition example_digest :: "string \<Rightarrow> string" where
  "example_digest s = ''<'' @ s @ ''>''"

text \<open>
  The bytes that the loop of \<open>ParseExec\<close> and \<open>ParseQuery\<close> appends to the Bind message
  for one argument; the length word that a DataRow carries for the same value; and the
  DataRow in which a server returns a list of arguments as columns, value by value in
  that format.
\<close>

definition argBytes :: "('v \<Rightarrow> string) \<Rightarrow> 'v option \<Rightarrow> string" where
  "argBytes value2bytes arg =
     (case arg of
        None \<Rightarrow> [CHR 0xFF, CHR 0xFF, CHR 0xFF, CHR 0xFF]
      | Some a \<Rightarrow> PutUint32 (length (value2bytes a) mod 4294967296) @ value2bytes a)"

definition argLen :: "('v \<Rightarrow> string) \<Rightarrow> 'v option \<Rightarrow> 32 word" where
  "argLen value2bytes arg =
     (case arg of None \<Rightarrow> 4294967295 | Some a \<Rightarrow> word_of_nat (length (value2bytes a)))"

definition dataRow_of :: "('v \<Rightarrow> string) \<Rightarrow> 'v option list \<Rightarrow> PgMessage" where
  "dataRow_of value2bytes args =
     \<lparr>Identifies = IdentifiesDataRow,
      Len = word_of_nat (6 + length (concat (map (argBytes value2bytes) args))),
      Content = PutUint32 (6 + length (concat (map (argBytes value2bytes) args)))
                  @ PutUint16 (length args) @ concat (map (argBytes value2bytes) args),
      Position = 4\<rparr>"

text \<open>
  \<open>exchange pio reqs\<close>: what the five query methods do with the socket. The requests
  are written in one \<open>send\<close> and the answer is received up to ReadyForQuery; the result is
  the list of the messages read and the session after them, and \<open>None\<close> when the write or
  a read failed. \<open>ready list pio\<close>: the last message of \<open>list\<close> is a ReadyForQuery whose
  payload byte is the transaction status of \<open>pio\<close>.
\<close>

definition exchange :: "PgIO \<Rightarrow> PgMessage list \<Rightarrow> (PgMessage list \<times> PgIO) option" where
  "exchange pio reqs =
     (case send pio reqs of
        (pio1, Some e) \<Rightarrow> None
      | (pio1, None) \<Rightarrow>
         (case receivePgMsg IdentifiesReadyForQuery pio1 [] of
            (list, Some e, pio2) \<Rightarrow> None
          | (list, None, pio2) \<Rightarrow> Some (list, pio2)))"

definition ready :: "PgMessage list \<Rightarrow> PgIO \<Rightarrow> bool" where
  "ready list pio =
     (list \<noteq> [] \<and> Identifies (last list) = IdentifiesReadyForQuery
      \<and> map_option fst (byte (last list)) = Some (txStatus pio))"

section \<open>Evaluation and the socket\<close>

declare receivePgMsg.simps [simp del]

declare Sprintf_x.simps [simp del]

lemmas Identifies_defs =
  IdentifiesAuth_def IdentifiesBackendKeyData_def IdentifiesCommandComplete_def
  IdentifiesDataRow_def IdentifiesErrorResponse_def IdentifiesParameterDescription_def
  IdentifiesParameterStatus_def IdentifiesReadyForQuery_def IdentifiesRowDescription_def
  IdentifiesBind_def IdentifiesClose_def IdentifiesDescribe_def IdentifiesExecute_def
  IdentifiesParse_def IdentifiesPasswordMessage_def IdentifiesQuery_def IdentifiesSync_def
  IdentifiesTerminate_def

lemma char_of_nat_bits:
  "char_of (n::nat) = Char (odd n) (odd (n div 2)) (odd (n div 4)) (odd (n div 8))
     (odd (n div 16)) (odd (n div 32)) (odd (n div 64)) (odd (n div 128))"
  by (simp add: char_of_def bit_iff_odd)

lemma send_cases:
  "send pio list =
     (if closed (conn pio)
        then (pio\<lparr>IOError := Some (NetError ''use of closed network connection'')\<rparr>,
              Some (NetError ''use of closed network connection''))
      else case writeErr (conn pio) of
             Some e \<Rightarrow> (pio\<lparr>IOError := Some e\<rparr>, Some e)
           | None \<Rightarrow>
              (pio\<lparr>conn := (conn pio)\<lparr>written := written (conn pio) @ [concat (map encode list)]\<rparr>,
                   IOError := None\<rparr>, None))"
  by (simp add: send_def Write_def split: option.splits)

lemmas read_defs =
  ReadByte_def Peek_def ReadFull_def Uint32_def Uint16_def PutUint32_def PutUint16_def
  char_of_nat_bits bytes_def byte_def int16_def int32_def string_def frame_def
  Identifies_defs example_conn_def example_io_def example_pgconn_def example_stmt_def
  error_frame_def ready_frame_def

lemmas write_defs =
  encode_def NewPgMessage_def addBytes_def addByte_def addInt16_def addInt32_def addString_def
  rBind_def rExec_def

lemmas wire_defs = read_defs write_defs

text \<open>A receive that returns without error ends with the separator.\<close>

lemma receivePgMsg_sep:
  "receivePgMsg sep pio ms = (list, None, pio') \<Longrightarrow> list \<noteq> [] \<and> Identifies (last list) = sep"
proof (induction sep pio ms rule: receivePgMsg.induct)
  case (1 sep pio ms)
  from "1.prems" show ?case
    apply (subst (asm) receivePgMsg.simps)
    apply (auto split: sum.splits prod.splits if_splits simp: Let_def dest: "1.IH")
    done
qed

text \<open>A receive writes nothing.\<close>

lemma receivePgMsg_written:
  "written (conn (snd (snd (receivePgMsg sep pio ms)))) = written (conn pio)"
proof (induction sep pio ms rule: receivePgMsg.induct)
  case (1 sep pio ms)
  show ?case
    apply (subst receivePgMsg.simps)
    apply (auto split: sum.splits prod.splits list.splits if_splits
                simp: Let_def ReadByte_def ReadFull_def "1.IH")
    done
qed

section \<open>Drain to ReadyForQuery\<close>

text \<open>Each loop over a list that ends with ReadyForQuery leaves the payload byte of that
  message in \<open>txStatus\<close>.\<close>

lemma QueryNoArgs_loop_ready:
  "QueryNoArgs_loop list acc = Some acc' \<Longrightarrow> list \<noteq> [] \<Longrightarrow>
   Identifies (last list) = IdentifiesReadyForQuery \<Longrightarrow> ready list (fst acc')"
proof (induction list arbitrary: acc)
  case Nil
  then show ?case by simp
next
  case (Cons v vs)
  obtain pio cols fl d err where acc: "acc = (pio, cols, fl, d, err)"
    by (cases acc) auto
  show ?case
  proof (cases "vs = []")
    case True
    with Cons.prems acc show ?thesis
      by (auto simp: ready_def Identifies_defs split: option.splits)
  next
    case False
    with Cons.prems acc have "ready vs (fst acc')"
      by (auto split: if_splits option.splits dest: Cons.IH)
    with False show ?thesis by (simp add: ready_def)
  qed
qed

lemma Parse_loop_ready:
  "Parse_loop list acc = Some acc' \<Longrightarrow> list \<noteq> [] \<Longrightarrow>
   Identifies (last list) = IdentifiesReadyForQuery \<Longrightarrow> ready list (fst acc')"
proof (induction list arbitrary: acc)
  case Nil
  then show ?case by simp
next
  case (Cons v vs)
  obtain pio cols ps err where acc: "acc = (pio, cols, ps, err)"
    by (cases acc) auto
  show ?case
  proof (cases "vs = []")
    case True
    with Cons.prems acc show ?thesis
      by (auto simp: ready_def Identifies_defs split: option.splits)
  next
    case False
    with Cons.prems acc have "ready vs (fst acc')"
      by (auto split: if_splits option.splits dest: Cons.IH)
    with False show ?thesis by (simp add: ready_def)
  qed
qed

lemma ParseExec_loop_ready:
  "ParseExec_loop list acc = Some acc' \<Longrightarrow> list \<noteq> [] \<Longrightarrow>
   Identifies (last list) = IdentifiesReadyForQuery \<Longrightarrow> ready list (fst acc')"
proof (induction list arbitrary: acc)
  case Nil
  then show ?case by simp
next
  case (Cons v vs)
  obtain pio n err where acc: "acc = (pio, n, err)"
    by (cases acc) auto
  show ?case
  proof (cases "vs = []")
    case True
    with Cons.prems acc show ?thesis
      by (auto simp: ready_def Identifies_defs split: option.splits)
  next
    case False
    with Cons.prems acc have "ready vs (fst acc')"
      by (auto simp: Let_def split: if_splits option.splits dest: Cons.IH)
    with False show ?thesis by (simp add: ready_def)
  qed
qed

lemma ParseQuery_loop_ready:
  "ParseQuery_loop list acc = Some acc' \<Longrightarrow> list \<noteq> [] \<Longrightarrow>
   Identifies (last list) = IdentifiesReadyForQuery \<Longrightarrow> ready list (fst acc')"
proof (induction list arbitrary: acc)
  case Nil
  then show ?case by simp
next
  case (Cons v vs)
  obtain pio fl d err where acc: "acc = (pio, fl, d, err)"
    by (cases acc) auto
  show ?case
  proof (cases "vs = []")
    case True
    with Cons.prems acc show ?thesis
      by (auto simp: ready_def Identifies_defs split: option.splits)
  next
    case False
    with Cons.prems acc have "ready vs (fst acc')"
      by (auto split: if_splits option.splits dest: Cons.IH)
    with False show ?thesis by (simp add: ready_def)
  qed
qed

lemma CloseParse_loop_ready:
  "CloseParse_loop list acc = Some acc' \<Longrightarrow> list \<noteq> [] \<Longrightarrow>
   Identifies (last list) = IdentifiesReadyForQuery \<Longrightarrow> ready list (fst acc')"
proof (induction list arbitrary: acc)
  case Nil
  then show ?case by simp
next
  case (Cons v vs)
  obtain pio err where acc: "acc = (pio, err)"
    by (cases acc) auto
  show ?case
  proof (cases "vs = []")
    case True
    with Cons.prems acc show ?thesis
      by (auto simp: ready_def Identifies_defs split: option.splits)
  next
    case False
    with Cons.prems acc have "ready vs (fst acc')"
      by (auto split: if_splits option.splits dest: Cons.IH)
    with False show ?thesis by (simp add: ready_def)
  qed
qed

lemma exchange_Some:
  "exchange pio reqs = Some (list, pio2) \<Longrightarrow>
     \<exists>pio1. send pio reqs = (pio1, None) \<and> receivePgMsg IdentifiesReadyForQuery pio1 [] = (list, None, pio2)"
  by (auto simp: exchange_def split: prod.splits option.splits)

text \<open>
  C4 (as amended): after any of the five query calls (\<open>QueryNoArgs\<close>, \<open>Parse\<close>, \<open>ParseExec\<close>,
  \<open>ParseQuery\<close>, \<open>CloseParse\<close>) returns without a socket failure, that is, its requests
  were written and its answer was read up to ReadyForQuery, the last backend message read
  is ReadyForQuery and the stored transaction status equals the payload byte of that
  message.
\<close>

theorem drain_to_ready:
  "(exchange pio [addString (NewPgMessage IdentifiesQuery) query] = Some (list, pio2)
      \<and> QueryNoArgs pio query = Some (pio', cols, fl, d, err) \<longrightarrow> ready list pio')
   \<and> (exchange pio [addInt16 (addString (addString (NewPgMessage IdentifiesParse) name) query) 0,
                     addString (addByte (NewPgMessage IdentifiesDescribe) (CHR ''S'')) name,
                     NewPgMessage IdentifiesSync] = Some (list, pio2)
      \<and> Parse pio name query = Some (pio', cols', ps, err) \<longrightarrow> ready list pio')
   \<and> (exchange pio [rBind value2bytes name args, rExec, NewPgMessage IdentifiesSync] = Some (list, pio2)
      \<and> ParseExec value2bytes pio name args = Some (pio', n, err) \<longrightarrow> ready list pio')
   \<and> (exchange pio [rBind value2bytes name args, rExec, NewPgMessage IdentifiesSync] = Some (list, pio2)
      \<and> ParseQuery value2bytes pio name args = Some (pio', fl', d', err) \<longrightarrow> ready list pio')
   \<and> (exchange pio [addString (addByte (NewPgMessage IdentifiesClose) (CHR ''S'')) name,
                     NewPgMessage IdentifiesSync] = Some (list, pio2)
      \<and> CloseParse pio name = Some (pio', err) \<longrightarrow> ready list pio')"
proof (intro conjI impI; elim conjE)
  assume ex: "exchange pio [addString (NewPgMessage IdentifiesQuery) query] = Some (list, pio2)"
    and op: "QueryNoArgs pio query = Some (pio', cols, fl, d, err)"
  from ex obtain pio1 where s: "send pio [addString (NewPgMessage IdentifiesQuery) query] = (pio1, None)"
    and r: "receivePgMsg IdentifiesReadyForQuery pio1 [] = (list, None, pio2)"
    by (blast dest: exchange_Some)
  from op s r obtain acc' where "QueryNoArgs_loop list (pio2, [], [], [], None) = Some acc'" "fst acc' = pio'"
    by (auto simp: QueryNoArgs_def)
  with receivePgMsg_sep [OF r] show "ready list pio'"
    by (auto dest: QueryNoArgs_loop_ready)
next
  assume ex: "exchange pio [addInt16 (addString (addString (NewPgMessage IdentifiesParse) name) query) 0,
                     addString (addByte (NewPgMessage IdentifiesDescribe) (CHR ''S'')) name,
                     NewPgMessage IdentifiesSync] = Some (list, pio2)"
    and op: "Parse pio name query = Some (pio', cols', ps, err)"
  from ex obtain pio1 where s: "send pio [addInt16 (addString (addString (NewPgMessage IdentifiesParse) name) query) 0,
                     addString (addByte (NewPgMessage IdentifiesDescribe) (CHR ''S'')) name,
                     NewPgMessage IdentifiesSync] = (pio1, None)"
    and r: "receivePgMsg IdentifiesReadyForQuery pio1 [] = (list, None, pio2)"
    by (blast dest: exchange_Some)
  from op s r have "Parse_loop list (pio2, [], [], None) = Some (pio', cols', ps, err)"
    by (simp add: Parse_def)
  with receivePgMsg_sep [OF r] show "ready list pio'"
    by (auto dest: Parse_loop_ready)
next
  assume ex: "exchange pio [rBind value2bytes name args, rExec, NewPgMessage IdentifiesSync] = Some (list, pio2)"
    and op: "ParseExec value2bytes pio name args = Some (pio', n, err)"
  from ex obtain pio1 where s: "send pio [rBind value2bytes name args, rExec, NewPgMessage IdentifiesSync] = (pio1, None)"
    and r: "receivePgMsg IdentifiesReadyForQuery pio1 [] = (list, None, pio2)"
    by (blast dest: exchange_Some)
  from op s r have "ParseExec_loop list (pio2, 0, None) = Some (pio', n, err)"
    by (simp add: ParseExec_def)
  with receivePgMsg_sep [OF r] show "ready list pio'"
    by (auto dest: ParseExec_loop_ready)
next
  assume ex: "exchange pio [rBind value2bytes name args, rExec, NewPgMessage IdentifiesSync] = Some (list, pio2)"
    and op: "ParseQuery value2bytes pio name args = Some (pio', fl', d', err)"
  from ex obtain pio1 where s: "send pio [rBind value2bytes name args, rExec, NewPgMessage IdentifiesSync] = (pio1, None)"
    and r: "receivePgMsg IdentifiesReadyForQuery pio1 [] = (list, None, pio2)"
    by (blast dest: exchange_Some)
  from op s r obtain acc' where "ParseQuery_loop list (pio2, [], [], None) = Some acc'" "fst acc' = pio'"
    by (auto simp: ParseQuery_def)
  with receivePgMsg_sep [OF r] show "ready list pio'"
    by (auto dest: ParseQuery_loop_ready)
next
  assume ex: "exchange pio [addString (addByte (NewPgMessage IdentifiesClose) (CHR ''S'')) name,
                     NewPgMessage IdentifiesSync] = Some (list, pio2)"
    and op: "CloseParse pio name = Some (pio', err)"
  from ex obtain pio1 where s: "send pio [addString (addByte (NewPgMessage IdentifiesClose) (CHR ''S'')) name,
                     NewPgMessage IdentifiesSync] = (pio1, None)"
    and r: "receivePgMsg IdentifiesReadyForQuery pio1 [] = (list, None, pio2)"
    by (blast dest: exchange_Some)
  from op s r have "CloseParse_loop list (pio2, None) = Some (pio', err)"
    by (simp add: CloseParse_def)
  with receivePgMsg_sep [OF r] show "ready list pio'"
    by (auto dest: CloseParse_loop_ready)
qed

theorem drain_to_ready_witness:
  "(exchange (example_io (frame (CHR ''Z'') ''T'')) [addString (NewPgMessage IdentifiesQuery) ''SELECT 1''] \<noteq> None
    \<and> QueryNoArgs (example_io (frame (CHR ''Z'') ''T'')) ''SELECT 1'' \<noteq> None
    \<and> ready (fst (the (exchange (example_io (frame (CHR ''Z'') ''T'')) [addString (NewPgMessage IdentifiesQuery) ''SELECT 1''])))
         (fst (the (QueryNoArgs (example_io (frame (CHR ''Z'') ''T'')) ''SELECT 1''))))
   \<and> (exchange (example_io (frame (CHR ''Z'') ''T''))
         [addInt16 (addString (addString (NewPgMessage IdentifiesParse) ''h'') ''SELECT 1'') 0,
          addString (addByte (NewPgMessage IdentifiesDescribe) (CHR ''S'')) ''h'',
          NewPgMessage IdentifiesSync] \<noteq> None
    \<and> Parse (example_io (frame (CHR ''Z'') ''T'')) ''h'' ''SELECT 1'' \<noteq> None
    \<and> ready (fst (the (exchange (example_io (frame (CHR ''Z'') ''T''))
         [addInt16 (addString (addString (NewPgMessage IdentifiesParse) ''h'') ''SELECT 1'') 0,
          addString (addByte (NewPgMessage IdentifiesDescribe) (CHR ''S'')) ''h'',
          NewPgMessage IdentifiesSync])))
         (fst (the (Parse (example_io (frame (CHR ''Z'') ''T'')) ''h'' ''SELECT 1''))))
   \<and> (exchange (example_io (frame (CHR ''Z'') ''T''))
         [rBind (\<lambda>s. s) ''h'' [None], rExec, NewPgMessage IdentifiesSync] \<noteq> None
    \<and> ParseExec (\<lambda>s. s) (example_io (frame (CHR ''Z'') ''T'')) ''h'' [None] \<noteq> None
    \<and> ParseQuery (\<lambda>s. s) (example_io (frame (CHR ''Z'') ''T'')) ''h'' [None] \<noteq> None
    \<and> ready (fst (the (exchange (example_io (frame (CHR ''Z'') ''T''))
         [rBind (\<lambda>s. s) ''h'' [None], rExec, NewPgMessage IdentifiesSync])))
         (fst (the (ParseExec (\<lambda>s. s) (example_io (frame (CHR ''Z'') ''T'')) ''h'' [None])))
    \<and> ready (fst (the (exchange (example_io (frame (CHR ''Z'') ''T''))
         [rBind (\<lambda>s. s) ''h'' [None], rExec, NewPgMessage IdentifiesSync])))
         (fst (the (ParseQuery (\<lambda>s. s) (example_io (frame (CHR ''Z'') ''T'')) ''h'' [None]))))
   \<and> (exchange (example_io (frame (CHR ''Z'') ''T''))
         [addString (addByte (NewPgMessage IdentifiesClose) (CHR ''S'')) ''h'',
          NewPgMessage IdentifiesSync] \<noteq> None
    \<and> CloseParse (example_io (frame (CHR ''Z'') ''T'')) ''h'' \<noteq> None
    \<and> ready (fst (the (exchange (example_io (frame (CHR ''Z'') ''T''))
         [addString (addByte (NewPgMessage IdentifiesClose) (CHR ''S'')) ''h'',
          NewPgMessage IdentifiesSync])))
         (fst (the (CloseParse (example_io (frame (CHR ''Z'') ''T'')) ''h''))))"
  (is "(?e1 \<noteq> None \<and> ?o1 \<noteq> None \<and> ?r1) \<and> (?e2 \<noteq> None \<and> ?o2 \<noteq> None \<and> ?r2)
       \<and> (?e3 \<noteq> None \<and> ?o3 \<noteq> None \<and> ?o4 \<noteq> None \<and> ?r3 \<and> ?r4) \<and> (?e5 \<noteq> None \<and> ?o5 \<noteq> None \<and> ?r5)")
proof -
  note d = drain_to_ready [where pio = "example_io (frame (CHR ''Z'') ''T'')"
      and query = "''SELECT 1''" and name = "''h''" and args = "[None]" and ?value2bytes = "\<lambda>s. s"]
  have e1: "?e1 \<noteq> None" and e2: "?e2 \<noteq> None" and e3: "?e3 \<noteq> None" and e5: "?e5 \<noteq> None"
    by (simp_all add: exchange_def send_cases receivePgMsg.simps read_defs)
  have o1: "?o1 \<noteq> None"
    by (simp add: QueryNoArgs_def send_cases receivePgMsg.simps read_defs)
  have o2: "?o2 \<noteq> None"
    by (simp add: Parse_def send_cases receivePgMsg.simps read_defs)
  have o3: "?o3 \<noteq> None"
    by (simp add: ParseExec_def send_cases receivePgMsg.simps read_defs)
  have o4: "?o4 \<noteq> None"
    by (simp add: ParseQuery_def send_cases receivePgMsg.simps read_defs)
  have o5: "?o5 \<noteq> None"
    by (simp add: CloseParse_def send_cases receivePgMsg.simps read_defs)
  have r1: ?r1
    using e1 o1 d [THEN conjunct1] by (auto simp del: fun_upd_apply)
  have r2: ?r2
    using e2 o2 d [THEN conjunct2, THEN conjunct1] by auto
  have r3: ?r3
    using e3 o3 d [THEN conjunct2, THEN conjunct2, THEN conjunct1] by auto
  have r4: ?r4
    using e3 o4 d [THEN conjunct2, THEN conjunct2, THEN conjunct2, THEN conjunct1] by auto
  have r5: ?r5
    using e5 o5 d [THEN conjunct2, THEN conjunct2, THEN conjunct2, THEN conjunct2] by auto
  from e1 e2 e3 e5 o1 o2 o3 o4 o5 r1 r2 r3 r4 r5 show ?thesis by blast
qed

text \<open>
  The claim as it was stated, for any call that returns, fails when the socket does: on a
  stream that ends after an ErrorResponse, \<open>QueryNoArgs\<close> returns \<open>EOF\<close> and the only
  message read is the ErrorResponse.
\<close>

theorem drain_to_ready_counterexample:
  "map Identifies
     (fst (receivePgMsg IdentifiesReadyForQuery
        (fst (send (example_io error_frame) [addString (NewPgMessage IdentifiesQuery) ''SELECT 1''])) []))
     = [IdentifiesErrorResponse]
   \<and> snd (snd (snd (snd (the (QueryNoArgs (example_io error_frame) ''SELECT 1''))))) = Some EOF"
  by (simp add: QueryNoArgs_def send_cases receivePgMsg.simps wire_defs)

section \<open>ErrorResponse and the caller\<close>

text \<open>Whatever \<open>ParseQuery\<close> returns, the error that \<open>PgStmt.Query\<close> returns is \<open>nil\<close>.\<close>

lemma PgStmt_Query_nil:
  "PgStmt_Query value2bytes c s args = Some (c', r, e) \<Longrightarrow> e = None"
  by (auto simp: PgStmt_Query_def)

text \<open>
  C1: when the server sends an ErrorResponse mid-stream, the answer is still read up to
  ReadyForQuery and the parsed ErrorResponse is returned to the caller as the call's
  error, for the query methods of \<open>PgIO\<close> and the \<open>PgStmt\<close> methods that call them. On
  the answer ErrorResponse, ReadyForQuery, \<open>ParseQuery\<close> returns the parsed error, and
  \<open>PgStmt.Query\<close>, which stores that error in \<open>err\<close> and then returns \<open>pr, nil\<close>, returns
  no error, with the whole answer consumed.
\<close>

theorem PgStmt_Query_drops_ErrorResponse:
  "snd (snd (snd (the (ParseQuery (\<lambda>s. s) (example_io (error_frame @ ready_frame)) ''h'' []))))
     = Some (PgError [(CHR ''S'', ''ERROR''), (CHR ''C'', ''42601'')])
   \<and> snd (snd (the (PgStmt_Query (\<lambda>s. s) (example_pgconn (error_frame @ ready_frame)) example_stmt [])))
     = None
   \<and> incoming (conn (io (fst (the (PgStmt_Query (\<lambda>s. s) (example_pgconn (error_frame @ ready_frame)) example_stmt []))))) = []"
  by (simp add: PgStmt_Query_def ParseQuery_def send_cases receivePgMsg.simps wire_defs ParseError_def)

section \<open>The sticky I/O-error flag\<close>
















section \<open>Affected rows\<close>

text \<open>
  C3: the affected-row count that \<open>ParseExec\<close> returns is the last space-separated field
  of the CommandComplete tag, so that \<open>UPDATE 3\<close> yields 3 and \<open>INSERT 0 5\<close> yields 5. The
  code takes the count only from a tag of exactly two fields: \<open>UPDATE 3\<close> yields 3, and
  \<open>INSERT 0 5\<close> yields 0.
\<close>

theorem ParseExec_INSERT_tag:
  "fst (snd (the (ParseExec (\<lambda>s. s)
       (example_io (frame (CHR ''C'') (''INSERT 0 5'' @ [CHR 0x00]) @ ready_frame)) ''h'' []))) = 0
   \<and> fst (snd (the (ParseExec (\<lambda>s. s)
       (example_io (frame (CHR ''C'') (''UPDATE 3'' @ [CHR 0x00]) @ ready_frame)) ''h'' []))) = 3"
  by (simp add: ParseExec_def send_cases receivePgMsg.simps wire_defs Atoi_def isDigit_def digitsValue_def)

section \<open>Authentication codes\<close>

text \<open>
  C5: an Authentication message with a code other than 0, 3 and 5 makes the handler fail
  with an "unsupported authentication method" error. The \<open>switch\<close> of \<open>auth\<close> has no
  case for such a code: for the code 10, in any session, \<open>auth\<close> returns \<open>nil\<close>, sends
  nothing and leaves the session as it was, so that \<open>StartUp\<close> goes on receiving.
\<close>

theorem auth_unsupported_code:
  "auth Md5 pio \<lparr>Identifies = IdentifiesAuth, Len = 8,
       Content = [CHR 0x00, CHR 0x00, CHR 0x00, CHR 0x08, CHR 0x00, CHR 0x00, CHR 0x00, CHR 0x0A], Position = 4\<rparr>
     = Some (pio, None)"
  by (simp add: auth_def int32_def bytes_def Uint32_def)

section \<open>Terminate\<close>

text \<open>
  C9 (as amended): \<open>Terminate\<close> sends a Terminate message; when that send fails it closes
  the socket, sets the I/O-error flag to the bad-connection error and returns the error
  of the send; when the send succeeds the frame \<open>X 00 00 00 04\<close> is written, the socket
  stays open and the flag is \<open>nil\<close>.
\<close>

theorem Terminate_closes_on_failed_send:
  "Terminate pio =
     (if \<not> closed (conn pio) \<and> writeErr (conn pio) = None
        then (pio\<lparr>conn := (conn pio)\<lparr>written := written (conn pio)
                           @ [[CHR ''X'', CHR 0x00, CHR 0x00, CHR 0x00, CHR 0x04]]\<rparr>,
                  IOError := None\<rparr>, None)
      else (pio\<lparr>conn := (conn pio)\<lparr>closed := True\<rparr>, IOError := Some ErrBadConn\<rparr>,
            if closed (conn pio) then Some (NetError ''use of closed network connection'')
            else writeErr (conn pio)))"
  by (auto simp add: Terminate_def send_cases Close_def encode_def NewPgMessage_def PutUint32_def
        char_of_nat_bits IdentifiesTerminate_def split: option.splits)

theorem Terminate_closes_on_failed_send_witness:
  "closed (conn (fst (Terminate ((example_io [])\<lparr>conn := (example_conn [])\<lparr>writeErr := Some (NetError ''broken pipe'')\<rparr>\<rparr>))))
   \<and> IOError (fst (Terminate ((example_io [])\<lparr>conn := (example_conn [])\<lparr>writeErr := Some (NetError ''broken pipe'')\<rparr>\<rparr>))) = Some ErrBadConn
   \<and> snd (Terminate ((example_io [])\<lparr>conn := (example_conn [])\<lparr>writeErr := Some (NetError ''broken pipe'')\<rparr>\<rparr>)) = Some (NetError ''broken pipe'')
   \<and> written (conn (fst (Terminate (example_io [])))) = [[CHR ''X'', CHR 0x00, CHR 0x00, CHR 0x00, CHR 0x04]]"
  using Terminate_closes_on_failed_send [of "(example_io [])\<lparr>conn := (example_conn [])\<lparr>writeErr := Some (NetError ''broken pipe'')\<rparr>\<rparr>"]
    Terminate_closes_on_failed_send [of "example_io []"]
  by (simp add: example_io_def example_conn_def)

text \<open>
  On a writable socket \<open>Terminate\<close> returns \<open>nil\<close> with the socket open and the flag
  clear, so the claim that it closes and marks the session in every case fails.
\<close>

theorem Terminate_counterexample:
  "snd (Terminate (example_io [])) = None
   \<and> \<not> closed (conn (fst (Terminate (example_io []))))
   \<and> IOError (fst (Terminate (example_io []))) = None"
  by (simp add: Terminate_def send_cases wire_defs)

section \<open>The statement cache\<close>

lemma ChecksumIEEE_SELECT_1: "Sprintf_x (unat (ChecksumIEEE ''SELECT 1'')) = ''667f399b''"
  by (simp add: ChecksumIEEE_def crc32_update_def crc32_bit_def bit_0 Sprintf_x.simps hexDigit_def)

lemmas NewPgStmt_eval =
  NewPgStmt_def Let_def ChecksumIEEE_SELECT_1 Parse_def send_cases receivePgMsg.simps wire_defs
  ParseError_def parse_answer_def example_select_def example_prepared_def

text \<open>\<open>NewPgStmt\<close> keeps every statement of the cache under its own name, and the cache
  of a new connection is empty.\<close>

lemma NewPgStmt_stmts_named:
  "stmts_named c \<Longrightarrow> NewPgStmt c query = Some (c1, r, e) \<Longrightarrow> stmts_named c1"
  by (auto simp: NewPgStmt_def stmts_named_def Let_def split: if_splits option.splits)

lemma stmts_named_example_pgconn: "stmts_named (example_pgconn bs)"
  by (simp add: stmts_named_def example_pgconn_def)

text \<open>A receive that returns without error and the loop of \<open>Parse\<close> leave the flag
  \<open>IOError\<close> as it was, so that a \<open>Parse\<close> that returns \<open>nil\<close> leaves it clear.\<close>

lemma receivePgMsg_IOError:
  "receivePgMsg sep pio ms = (list, None, pio') \<Longrightarrow> IOError pio' = IOError pio"
proof (induction sep pio ms rule: receivePgMsg.induct)
  case (1 sep pio ms)
  from "1.prems" show ?case
    apply (subst (asm) receivePgMsg.simps)
    apply (auto split: sum.splits prod.splits if_splits simp: Let_def dest!: "1.IH")
    done
qed

lemma Parse_loop_IOError:
  "Parse_loop list acc = Some acc' \<Longrightarrow> IOError (fst acc') = IOError (fst acc)"
proof (induction list arbitrary: acc)
  case Nil
  then show ?case by simp
next
  case (Cons v vs)
  obtain pio cols ps err where acc: "acc = (pio, cols, ps, err)"
    by (cases acc) auto
  from Cons.prems acc show ?case
    by (auto split: if_splits option.splits dest!: Cons.IH)
qed

lemma Parse_nil_flag:
  assumes "Parse pio name query = Some (pio', cols, ps, None)"
  shows "IOError pio' = None"
proof -
  let ?reqs = "[addInt16 (addString (addString (NewPgMessage IdentifiesParse) name) query) 0,
                addString (addByte (NewPgMessage IdentifiesDescribe) (CHR ''S'')) name,
                NewPgMessage IdentifiesSync]"
  obtain pio1 werr where s: "send pio ?reqs = (pio1, werr)"
    by (cases "send pio ?reqs") auto
  obtain list rerr pio2 where r: "receivePgMsg IdentifiesReadyForQuery pio1 [] = (list, rerr, pio2)"
    by (cases "receivePgMsg IdentifiesReadyForQuery pio1 []") auto
  from assms s r have werr: "werr = None" and rerr: "rerr = None"
    and l: "Parse_loop list (pio2, [], [], None) = Some (pio', cols, ps, None)"
    by (auto simp: Parse_def split: option.splits)
  from s werr have "IOError pio1 = None"
    by (auto simp: send_def Let_def split: prod.splits)
  with receivePgMsg_IOError [of IdentifiesReadyForQuery pio1 "[]" list pio2] r rerr
  have "IOError pio2 = None" by simp
  with Parse_loop_IOError [OF l] show ?thesis by simp
qed

text \<open>
  C8: preparing the same SQL text twice on a connection yields the same server-side
  statement name, the hexadecimal rendering of the CRC-32 of the text, and the second
  call returns the cached statement without invoking \<open>Parse\<close>. Here: on a connection
  whose cache holds every statement under its own name, when a call of \<open>NewPgStmt\<close> has
  returned without error, it has returned a statement of that name, and the next call
  with the same text returns the same statement with the error \<open>nil\<close> and leaves the
  connection, and with it the list of the writes to the socket, unchanged.
\<close>

theorem prepare_twice:
  assumes "stmts_named c"
      and "NewPgStmt c query = Some (c1, r, None)"
  shows "r \<noteq> None
     \<and> map_option st_Identifies r = Some (Sprintf_x (unat (ChecksumIEEE query)))
     \<and> NewPgStmt c1 query = Some (c1, r, None)"
proof (cases "stmts c (Sprintf_x (unat (ChecksumIEEE query)))")
  case None
  with assms(2) obtain pio cols ps where p: "Parse (io c) (Sprintf_x (unat (ChecksumIEEE query))) query = Some (pio, cols, ps, None)"
    and c1: "c1 = c\<lparr>io := pio, stmts := (stmts c)(Sprintf_x (unat (ChecksumIEEE query)) \<mapsto>
         \<lparr>st_Identifies = Sprintf_x (unat (ChecksumIEEE query)), Sql = query, st_columns = cols, parameterTypes = ps\<rparr>)\<rparr>"
    and r: "r = Some \<lparr>st_Identifies = Sprintf_x (unat (ChecksumIEEE query)), Sql = query, st_columns = cols, parameterTypes = ps\<rparr>"
    by (auto simp: NewPgStmt_def Let_def split: if_splits option.splits)
  from Parse_nil_flag [OF p] c1 r show ?thesis
    by (simp add: NewPgStmt_def Let_def)
next
  case (Some st)
  from assms(1) Some have n: "st_Identifies st = Sprintf_x (unat (ChecksumIEEE query))"
    unfolding stmts_named_def by blast
  from assms(2) Some have f: "IOError (io c) = None" and c1: "c1 = c" and r: "r = Some st"
    by (simp_all add: NewPgStmt_def Let_def split: if_splits)
  from f c1 r n Some show ?thesis
    by (simp add: NewPgStmt_def Let_def)
qed

theorem prepare_twice_witness:
  "stmts_named (example_pgconn parse_answer)
   \<and> NewPgStmt (example_pgconn parse_answer) ''SELECT 1'' = Some (example_prepared None, Some example_select, None)
   \<and> NewPgStmt (example_prepared None) ''SELECT 1'' = Some (example_prepared None, Some example_select, None)
   \<and> st_Identifies example_select = Sprintf_x (unat (ChecksumIEEE ''SELECT 1''))
   \<and> st_Identifies example_select = ''667f399b''"
proof -
  have n: "stmts_named (example_pgconn parse_answer)"
    by (simp add: stmts_named_def example_pgconn_def)
  have first: "NewPgStmt (example_pgconn parse_answer) ''SELECT 1''
      = Some (example_prepared None, Some example_select, None)"
    by (simp add: NewPgStmt_eval)
  note r = prepare_twice [OF n first]
  from r have name: "st_Identifies example_select = Sprintf_x (unat (ChecksumIEEE ''SELECT 1''))"
    by simp
  have hex: "st_Identifies example_select = ''667f399b''"
    by (simp add: example_select_def)
  show ?thesis
    by (intro conjI n first r [THEN conjunct2, THEN conjunct2] name hex)
qed

text \<open>
  C10 (as amended): if \<open>Parse\<close> fails while a new statement is prepared, \<open>NewPgStmt\<close> still
  stores the statement in the cache before it returns the error; every later call of
  \<open>NewPgStmt\<close> with the same SQL text that is made while the flag \<open>IOError\<close> is clear (and
  the cache still holds the statement) returns the cached, never successfully parsed
  statement with the error \<open>nil\<close> and without a new \<open>Parse\<close>: the connection is unchanged.
\<close>

theorem failed_parse_is_cached:
  assumes "IOError (io c) = None"
      and "stmts c (Sprintf_x (unat (ChecksumIEEE query))) = None"
      and "NewPgStmt c query = Some (c1, r, Some e)"
  shows "r \<noteq> None \<and> stmts c1 (Sprintf_x (unat (ChecksumIEEE query))) = r
     \<and> (IOError (io c2) = None \<and> stmts c2 (Sprintf_x (unat (ChecksumIEEE query))) = r
          \<longrightarrow> NewPgStmt c2 query = Some (c2, r, None))"
  using assms
  by (auto simp: NewPgStmt_def Let_def split: if_splits option.splits)

theorem failed_parse_is_cached_witness:
  "IOError (io (example_pgconn (error_frame @ ready_frame))) = None
   \<and> stmts (example_pgconn (error_frame @ ready_frame)) (Sprintf_x (unat (ChecksumIEEE ''SELECT 1''))) = None
   \<and> NewPgStmt (example_pgconn (error_frame @ ready_frame)) ''SELECT 1''
       = Some (example_prepared None, Some example_select,
               Some (PgError [(CHR ''S'', ''ERROR''), (CHR ''C'', ''42601'')]))
   \<and> stmts (example_prepared None) (Sprintf_x (unat (ChecksumIEEE ''SELECT 1''))) = Some example_select
   \<and> NewPgStmt (example_prepared None) ''SELECT 1'' = Some (example_prepared None, Some example_select, None)"
proof -
  let ?c = "example_pgconn (error_frame @ ready_frame)"
  have flag: "IOError (io ?c) = None"
    by (simp add: example_pgconn_def example_io_def)
  have fresh: "stmts ?c (Sprintf_x (unat (ChecksumIEEE ''SELECT 1''))) = None"
    by (simp add: example_pgconn_def)
  have first: "NewPgStmt ?c ''SELECT 1''
      = Some (example_prepared None, Some example_select,
              Some (PgError [(CHR ''S'', ''ERROR''), (CHR ''C'', ''42601'')]))"
    by (simp add: NewPgStmt_eval)
  have flag1: "IOError (io (example_prepared None)) = None"
    by (simp add: example_prepared_def)
  note r = failed_parse_is_cached [OF flag fresh first, of "example_prepared None"]
  from r have cached: "stmts (example_prepared None) (Sprintf_x (unat (ChecksumIEEE ''SELECT 1''))) = Some example_select"
    by blast
  from r flag1 cached
  have second: "NewPgStmt (example_prepared None) ''SELECT 1'' = Some (example_prepared None, Some example_select, None)"
    by blast
  show ?thesis
    by (intro conjI flag fresh first cached second)
qed

text \<open>
  When the failure of \<open>Parse\<close> is a failure of the socket that sets the flag (here the
  stream ends before any answer), the statement is cached all the same, but the next call
  returns the bad-connection error and no statement.
\<close>

theorem failed_parse_counterexample:
  "NewPgStmt (example_pgconn []) ''SELECT 1''
     = Some (example_prepared (Some EOF), Some example_select, Some EOF)
   \<and> NewPgStmt (example_prepared (Some EOF)) ''SELECT 1''
     = Some (example_prepared (Some EOF), None, Some ErrBadConn)"
  by (simp add: NewPgStmt_eval)

section \<open>MD5 authentication\<close>

text \<open>Among the messages of a receive that returns without error only the last carries
  the separator.\<close>

lemma receivePgMsg_only_sep:
  "receivePgMsg sep pio ms = (list, None, pio') \<Longrightarrow>
     filter (\<lambda>m. Identifies m = sep) list = filter (\<lambda>m. Identifies m = sep) ms @ [last list]"
proof (induction sep pio ms rule: receivePgMsg.induct)
  case (1 sep pio ms)
  from "1.prems" show ?case
    apply (subst (asm) receivePgMsg.simps)
    apply (auto split: sum.splits prod.splits if_splits simp: Let_def dest!: "1.IH")
    done
qed

lemma send_error:
  "snd (send pio list) =
     (if closed (conn pio) then Some (NetError ''use of closed network connection'')
      else writeErr (conn pio))"
  by (simp add: send_def Write_def split: option.splits)

lemma auth_loop_ok:
  "auth_loop list = Some None \<Longrightarrow> list \<noteq> [] \<Longrightarrow> Identifies (last list) = IdentifiesAuth \<Longrightarrow>
     map_option fst (int32 (last list)) = Some 0"
proof (induction list)
  case Nil
  then show ?case by simp
next
  case (Cons v vs)
  show ?case
  proof (cases "vs = []")
    case True
    with Cons.prems show ?thesis
      by (auto split: option.splits if_splits)
  next
    case False
    with Cons.prems have "auth_loop vs = Some None"
      by (auto split: option.splits if_splits)
    with False Cons show ?thesis by simp
  qed
qed

lemma auth_password_result:
  assumes "auth_password pio body = Some (pio', err)"
  shows "written (conn pio') =
           (if closed (conn pio) \<or> writeErr (conn pio) \<noteq> None then written (conn pio)
            else written (conn pio) @ [encode (addString (NewPgMessage IdentifiesPasswordMessage) body)])"
    and "closed (conn pio) \<or> writeErr (conn pio) \<noteq> None \<Longrightarrow> err \<noteq> None"
    and "err = None \<Longrightarrow>
           fst (snd (receivePgMsg IdentifiesAuth
                  (fst (send pio [addString (NewPgMessage IdentifiesPasswordMessage) body])) [])) = None
           \<and> filter (\<lambda>m. Identifies m = IdentifiesAuth)
                (fst (receivePgMsg IdentifiesAuth
                  (fst (send pio [addString (NewPgMessage IdentifiesPasswordMessage) body])) []))
              = [last (fst (receivePgMsg IdentifiesAuth
                  (fst (send pio [addString (NewPgMessage IdentifiesPasswordMessage) body])) []))]
           \<and> map_option fst (int32 (last (fst (receivePgMsg IdentifiesAuth
                  (fst (send pio [addString (NewPgMessage IdentifiesPasswordMessage) body])) [])))) = Some 0"
proof -
  let ?m = "addString (NewPgMessage IdentifiesPasswordMessage) body"
  obtain pio1 werr where s: "send pio [?m] = (pio1, werr)"
    by (cases "send pio [?m]") auto
  obtain list rerr pio2 where r: "receivePgMsg IdentifiesAuth pio1 [] = (list, rerr, pio2)"
    by (cases "receivePgMsg IdentifiesAuth pio1 []") auto
  have w2: "written (conn pio2) = written (conn pio1)"
    using receivePgMsg_written [of IdentifiesAuth pio1 "[]"] r by simp
  show "written (conn pio') =
           (if closed (conn pio) \<or> writeErr (conn pio) \<noteq> None then written (conn pio)
            else written (conn pio) @ [encode ?m])"
    using assms s r w2
    by (auto simp: auth_password_def send_cases split: if_splits option.splits)
  show "err \<noteq> None" if "closed (conn pio) \<or> writeErr (conn pio) \<noteq> None"
  proof -
    have "werr = snd (send pio [?m])"
      using s by simp
    with that have "werr \<noteq> None"
      by (auto simp: send_error)
    then obtain e where "werr = Some e" by blast
    with assms s show ?thesis by (cases err) (auto simp: auth_password_def)
  qed
  show "fst (snd (receivePgMsg IdentifiesAuth (fst (send pio [?m])) [])) = None
      \<and> filter (\<lambda>m. Identifies m = IdentifiesAuth) (fst (receivePgMsg IdentifiesAuth (fst (send pio [?m])) []))
          = [last (fst (receivePgMsg IdentifiesAuth (fst (send pio [?m])) []))]
      \<and> map_option fst (int32 (last (fst (receivePgMsg IdentifiesAuth (fst (send pio [?m])) [])))) = Some 0"
    if "err = None"
  proof -
    from assms s r that have werr: "werr = None" and rerr: "rerr = None" and l: "auth_loop list = Some None"
      by (auto simp: auth_password_def split: option.splits)
    from r rerr have r': "receivePgMsg IdentifiesAuth pio1 [] = (list, None, pio2)" by simp
    from receivePgMsg_sep [OF r'] receivePgMsg_only_sep [OF r'] auth_loop_ok [OF l] s r'
    show ?thesis by simp
  qed
qed

text \<open>
  C6: when the server requests MD5 authentication (code 5), the engine reads the 4-byte
  salt that follows the code and sends a PasswordMessage whose body is \<open>md5\<close> followed by
  \<open>Md5 (Md5 (password @ user) @ salt)\<close> and a NUL, then receives until the next
  Authentication message and fails unless its code is 0. Here: the one write is that
  frame (and nothing is written when the socket is not writable); and when \<open>auth\<close>
  returns \<open>nil\<close>, the socket was writable, the receive returned without error, the only
  Authentication message received is the last message, and its code is 0.
\<close>

theorem auth_md5:
  assumes code: "int32 msg = Some (5, msg1)"
      and salt: "bytes msg1 4 = Some (salt, msg2)"
      and ret: "auth Md5 pio msg = Some (pio', err)"
  shows "written (conn pio') =
           (if closed (conn pio) \<or> writeErr (conn pio) \<noteq> None then written (conn pio)
            else written (conn pio)
                 @ [CHR ''p'' # PutUint32 ((8 + length (Md5 (Md5 (Password (dsn pio) @ user pio) @ salt))) mod 4294967296)
                      @ ''md5'' @ Md5 (Md5 (Password (dsn pio) @ user pio) @ salt) @ [CHR 0x00]])
     \<and> (err = None \<longrightarrow>
           \<not> closed (conn pio) \<and> writeErr (conn pio) = None
           \<and> fst (snd (receivePgMsg IdentifiesAuth
                  (fst (send pio [addString (NewPgMessage IdentifiesPasswordMessage)
                     (''md5'' @ Md5 (Md5 (Password (dsn pio) @ user pio) @ salt))])) [])) = None
           \<and> filter (\<lambda>m. Identifies m = IdentifiesAuth)
                (fst (receivePgMsg IdentifiesAuth
                  (fst (send pio [addString (NewPgMessage IdentifiesPasswordMessage)
                     (''md5'' @ Md5 (Md5 (Password (dsn pio) @ user pio) @ salt))])) []))
              = [last (fst (receivePgMsg IdentifiesAuth
                  (fst (send pio [addString (NewPgMessage IdentifiesPasswordMessage)
                     (''md5'' @ Md5 (Md5 (Password (dsn pio) @ user pio) @ salt))])) []))]
           \<and> map_option fst (int32 (last (fst (receivePgMsg IdentifiesAuth
                  (fst (send pio [addString (NewPgMessage IdentifiesPasswordMessage)
                     (''md5'' @ Md5 (Md5 (Password (dsn pio) @ user pio) @ salt))])) [])))) = Some 0)"
proof -
  let ?body = "''md5'' @ Md5 (Md5 (Password (dsn pio) @ user pio) @ salt)"
  from code salt ret have p: "auth_password pio ?body = Some (pio', err)"
    by (simp add: auth_def)
  have enc: "encode (addString (NewPgMessage IdentifiesPasswordMessage) ?body)
      = CHR ''p'' # PutUint32 ((8 + length (Md5 (Md5 (Password (dsn pio) @ user pio) @ salt))) mod 4294967296)
          @ ''md5'' @ Md5 (Md5 (Password (dsn pio) @ user pio) @ salt) @ [CHR 0x00]"
    by (simp add: encode_def addString_def addBytes_def NewPgMessage_def IdentifiesPasswordMessage_def)
  from auth_password_result(1) [OF p] enc have w: "written (conn pio') =
           (if closed (conn pio) \<or> writeErr (conn pio) \<noteq> None then written (conn pio)
            else written (conn pio)
                 @ [CHR ''p'' # PutUint32 ((8 + length (Md5 (Md5 (Password (dsn pio) @ user pio) @ salt))) mod 4294967296)
                      @ ''md5'' @ Md5 (Md5 (Password (dsn pio) @ user pio) @ salt) @ [CHR 0x00]])"
    by simp
  from auth_password_result(2) [OF p] have "err = None \<Longrightarrow> \<not> closed (conn pio) \<and> writeErr (conn pio) = None"
    by blast
  with w auth_password_result(3) [OF p] show ?thesis
    by blast
qed


theorem auth_md5_witness:
  "int32 md5_request = Some (5, md5_request\<lparr>Position := 8\<rparr>)
   \<and> bytes (md5_request\<lparr>Position := 8\<rparr>) 4
       = Some ([CHR 0x01, CHR 0x02, CHR 0x03, CHR 0x04], md5_request\<lparr>Position := 12\<rparr>)
   \<and> auth example_digest (example_io auth_ok_frame) md5_request
       = Some ((example_io [])\<lparr>conn := (example_conn [])
                 \<lparr>written := [CHR ''p'' # [CHR 0x00, CHR 0x00, CHR 0x00, CHR 0x1B]
                               @ ''md5<<secretalice>'' @ [CHR 0x01, CHR 0x02, CHR 0x03, CHR 0x04]
                               @ ''>'' @ [CHR 0x00]]\<rparr>\<rparr>, None)
   \<and> written (conn ((example_io [])\<lparr>conn := (example_conn [])
                 \<lparr>written := [CHR ''p'' # [CHR 0x00, CHR 0x00, CHR 0x00, CHR 0x1B]
                               @ ''md5<<secretalice>'' @ [CHR 0x01, CHR 0x02, CHR 0x03, CHR 0x04]
                               @ ''>'' @ [CHR 0x00]]\<rparr>\<rparr>))
       = written (conn (example_io auth_ok_frame))
         @ [CHR ''p'' # PutUint32 27 @ ''md5''
              @ example_digest (example_digest (''secret'' @ ''alice'') @ [CHR 0x01, CHR 0x02, CHR 0x03, CHR 0x04])
              @ [CHR 0x00]]
   \<and> map_option fst (int32 (last (fst (receivePgMsg IdentifiesAuth
         (fst (send (example_io auth_ok_frame) [addString (NewPgMessage IdentifiesPasswordMessage)
            (''md5'' @ example_digest (example_digest
               (Password (dsn (example_io auth_ok_frame)) @ user (example_io auth_ok_frame))
               @ [CHR 0x01, CHR 0x02, CHR 0x03, CHR 0x04]))])) [])))) = Some 0"
proof -
  let ?S = "(example_io [])\<lparr>conn := (example_conn [])
                 \<lparr>written := [CHR ''p'' # [CHR 0x00, CHR 0x00, CHR 0x00, CHR 0x1B]
                               @ ''md5<<secretalice>'' @ [CHR 0x01, CHR 0x02, CHR 0x03, CHR 0x04]
                               @ ''>'' @ [CHR 0x00]]\<rparr>\<rparr>"
  have code: "int32 md5_request = Some (5, md5_request\<lparr>Position := 8\<rparr>)"
    by (simp add: md5_request_def int32_def bytes_def Uint32_def)
  have salt: "bytes (md5_request\<lparr>Position := 8\<rparr>) 4
       = Some ([CHR 0x01, CHR 0x02, CHR 0x03, CHR 0x04], md5_request\<lparr>Position := 12\<rparr>)"
    by (simp add: md5_request_def bytes_def)
  have ret: "auth example_digest (example_io auth_ok_frame) md5_request = Some (?S, None)"
    by (simp add: auth_def auth_password_def user_def send_cases receivePgMsg.simps wire_defs
          md5_request_def auth_ok_frame_def example_digest_def)
  from auth_md5 [OF code salt ret, THEN conjunct1]
  have w: "written (conn ?S)
       = written (conn (example_io auth_ok_frame))
         @ [CHR ''p'' # PutUint32 27 @ ''md5''
              @ example_digest (example_digest (''secret'' @ ''alice'') @ [CHR 0x01, CHR 0x02, CHR 0x03, CHR 0x04])
              @ [CHR 0x00]]"
    by (simp add: example_io_def example_conn_def example_digest_def user_def)
  note zero = auth_md5 [OF code salt ret, THEN conjunct2, THEN mp, OF refl,
      THEN conjunct2, THEN conjunct2, THEN conjunct2, THEN conjunct2]
  show ?thesis
    by (intro conjI code salt ret w zero)
qed

section \<open>NULL in Bind and DataRow\<close>

text \<open>Reading back what \<open>PutUint32\<close> and \<open>PutUint16\<close> wrote, and the cursor on a payload
  that continues with given bytes.\<close>

lemma be32_bytes:
  "foldl (\<lambda>a c. a * 256 + of_char c) (0::nat) (take 4 (PutUint32 n @ bs)) = n mod 4294967296"
proof -
  have a: "n mod 4294967296 = 256 * (n div 256 mod 16777216) + n mod 256"
    using mod_mult2_eq [of n 256 16777216] by simp
  have d1: "n div 256 div 256 = n div 65536"
    using div_mult2_eq [of n 256 256] by simp
  have d2: "n div 65536 div 256 = n div 16777216"
    using div_mult2_eq [of n 65536 256] by simp
  have b: "n div 256 mod 16777216 = 256 * (n div 65536 mod 65536) + n div 256 mod 256"
    using mod_mult2_eq [of "n div 256" 256 65536] by (simp add: d1)
  have c: "n div 65536 mod 65536 = 256 * (n div 16777216 mod 256) + n div 65536 mod 256"
    using mod_mult2_eq [of "n div 65536" 256 256] by (simp add: d2)
  show ?thesis
    by (simp add: PutUint32_def a b c)
qed

lemma Uint32_PutUint32: "Uint32 (PutUint32 n @ bs) = word_of_nat n"
proof -
  have "Uint32 (PutUint32 n @ bs) = word_of_nat (n mod 4294967296)"
    by (simp only: Uint32_def be32_bytes)
  also have "\<dots> = (word_of_nat n :: 32 word)"
    by (simp add: word_of_nat_eq_iff take_bit_eq_mod)
  finally show ?thesis .
qed

lemma be16_bytes:
  "foldl (\<lambda>a c. a * 256 + of_char c) (0::nat) (take 2 (PutUint16 n @ bs)) = n mod 65536"
proof -
  have a: "n mod 65536 = 256 * (n div 256 mod 256) + n mod 256"
    using mod_mult2_eq [of n 256 256] by simp
  show ?thesis
    by (simp add: PutUint16_def a)
qed

lemma Uint16_PutUint16: "Uint16 (PutUint16 n @ bs) = word_of_nat n"
proof -
  have "Uint16 (PutUint16 n @ bs) = word_of_nat (n mod 65536)"
    by (simp only: Uint16_def be16_bytes)
  also have "\<dots> = (word_of_nat n :: 16 word)"
    by (simp add: word_of_nat_eq_iff take_bit_eq_mod)
  finally show ?thesis .
qed


lemma PutUint32_minus_one: "PutUint32 (nat (- 1 mod 4294967296)) = [CHR 0xFF, CHR 0xFF, CHR 0xFF, CHR 0xFF]"
  by (simp add: PutUint32_def char_of_nat_bits)

lemma argBytes_None: "argBytes value2bytes None = PutUint32 4294967295"
  by (simp add: argBytes_def PutUint32_def char_of_nat_bits)

lemma argBytes_Some:
  "argBytes value2bytes (Some a) = PutUint32 (length (value2bytes a) mod 4294967296) @ value2bytes a"
  by (simp add: argBytes_def)

lemma length_PutUint32: "length (PutUint32 n) = 4"
  by (simp add: PutUint32_def)

lemma bindArgs_Content:
  "Content (bindArgs value2bytes m args) = Content m @ concat (map (argBytes value2bytes) args)"
  by (induction args arbitrary: m)
     (auto simp: argBytes_def addInt32_def addBytes_def PutUint32_minus_one [simplified] Let_def
           nat_mod_distrib split: option.splits)

lemma bytes_at:
  assumes "drop (Position v) (Content v) = b @ bs" and "Position v \<le> length (Content v)"
  shows "bytes v (length b) = Some (b, v\<lparr>Position := Position v + length b\<rparr>)"
proof -
  from assms(1) have "length b \<le> length (drop (Position v) (Content v))" by simp
  with assms(2) have le: "Position v + length b \<le> length (Content v)" by simp
  from assms(1) have "take (length b) (drop (Position v) (Content v)) = b" by simp
  with le show ?thesis by (simp add: bytes_def)
qed

lemma drop_at:
  assumes "drop (Position v) (Content v) = b @ bs" and "Position v \<le> length (Content v)"
  shows "drop (Position v + length b) (Content v) = bs \<and> Position v + length b \<le> length (Content v)"
proof -
  from assms(1) have "length b \<le> length (drop (Position v) (Content v))" by simp
  with assms(2) have le: "Position v + length b \<le> length (Content v)" by simp
  have "drop (Position v + length b) (Content v) = drop (length b) (drop (Position v) (Content v))"
    by (simp add: add.commute)
  with assms(1) le show ?thesis by simp
qed

lemma int32_at:
  assumes "drop (Position v) (Content v) = PutUint32 n @ bs" and "Position v \<le> length (Content v)"
  shows "int32 v = Some (word_of_nat n, v\<lparr>Position := Position v + 4\<rparr>)"
proof -
  have l: "length (PutUint32 n) = 4" by (simp add: PutUint32_def)
  from bytes_at [OF assms] have "bytes v 4 = Some (PutUint32 n, v\<lparr>Position := Position v + 4\<rparr>)"
    unfolding l .
  moreover have "Uint32 (PutUint32 n) = word_of_nat n"
    using Uint32_PutUint32 [of n "[]"] by simp
  ultimately show ?thesis by (simp add: int32_def)
qed

lemma dataRow_loop_argBytes:
  assumes "\<forall>a. Some a \<in> set args \<longrightarrow> length (value2bytes a) < 4294967295"
      and "drop (Position v) (Content v) = concat (map (argBytes value2bytes) args) @ rest"
      and "Position v \<le> length (Content v)"
  shows "dataRow_loop (length args) v rowLen row
           = Some (rowLen @ map (argLen value2bytes) args, row @ map (map_option value2bytes) args)"
  using assms
proof (induction args arbitrary: v rowLen row)
  case Nil
  then show ?case by simp
next
  case (Cons arg args)
  show ?case
  proof (cases arg)
    case None
    let ?v1 = "v\<lparr>Position := Position v + 4\<rparr>"
    from Cons.prems(2) None
    have d: "drop (Position v) (Content v)
        = PutUint32 4294967295 @ (concat (map (argBytes value2bytes) args) @ rest)"
      by (simp add: argBytes_None)
    from int32_at [OF d Cons.prems(3)] have i: "int32 v = Some (4294967295, ?v1)" by simp
    from drop_at [OF d Cons.prems(3)]
    have d1: "drop (Position ?v1) (Content ?v1) = concat (map (argBytes value2bytes) args) @ rest"
      and p1: "Position ?v1 \<le> length (Content ?v1)"
      by (simp_all add: length_PutUint32)
    from Cons.prems(1) have a1: "\<forall>a. Some a \<in> set args \<longrightarrow> length (value2bytes a) < 4294967295"
      by simp
    from Cons.IH [OF a1 d1 p1, of "rowLen @ [4294967295]" "row @ [None]"] i None
    show ?thesis by (simp add: argLen_def)
  next
    case (Some a)
    let ?b = "value2bytes a"
    let ?v1 = "v\<lparr>Position := Position v + 4\<rparr>"
    let ?v2 = "?v1\<lparr>Position := Position ?v1 + length ?b\<rparr>"
    from Cons.prems(1) Some have len: "length ?b < 4294967295" by simp
    from Cons.prems(2) Some
    have d: "drop (Position v) (Content v)
        = PutUint32 (length ?b) @ (?b @ concat (map (argBytes value2bytes) args) @ rest)"
      using len by (simp add: argBytes_Some)
    from int32_at [OF d Cons.prems(3)] have i: "int32 v = Some (word_of_nat (length ?b), ?v1)" .
    from len have u: "unat (word_of_nat (length ?b) :: 32 word) = length ?b"
      by (simp add: unat_of_nat)
    with len have "unat (word_of_nat (length ?b) :: 32 word) \<noteq> unat (4294967295 :: 32 word)"
      by simp
    then have ne: "(word_of_nat (length ?b) :: 32 word) \<noteq> 4294967295"
      by auto
    from drop_at [OF d Cons.prems(3)]
    have d1: "drop (Position ?v1) (Content ?v1) = ?b @ (concat (map (argBytes value2bytes) args) @ rest)"
      and p1: "Position ?v1 \<le> length (Content ?v1)"
      by (simp_all add: length_PutUint32)
    from bytes_at [OF d1 p1] have b: "bytes ?v1 (length ?b) = Some (?b, ?v2)" .
    from drop_at [OF d1 p1]
    have d2: "drop (Position ?v2) (Content ?v2) = concat (map (argBytes value2bytes) args) @ rest"
      and p2: "Position ?v2 \<le> length (Content ?v2)"
      by simp_all
    from Cons.prems(1) have a1: "\<forall>a. Some a \<in> set args \<longrightarrow> length (value2bytes a) < 4294967295"
      by simp
    from Cons.IH [OF a1 d2 p2, of "rowLen @ [word_of_nat (length ?b)]" "row @ [Some ?b]"] i b u ne Some
    show ?thesis by (simp add: argLen_def)
  qed
qed

lemma int16_at:
  assumes "drop (Position v) (Content v) = PutUint16 n @ bs" and "Position v \<le> length (Content v)"
  shows "int16 v = Some (word_of_nat n, v\<lparr>Position := Position v + 2\<rparr>)"
proof -
  have l: "length (PutUint16 n) = 2" by (simp add: PutUint16_def)
  from bytes_at [OF assms] have "bytes v 2 = Some (PutUint16 n, v\<lparr>Position := Position v + 2\<rparr>)"
    unfolding l .
  moreover have "Uint16 (PutUint16 n) = word_of_nat n"
    using Uint16_PutUint16 [of n "[]"] by simp
  ultimately show ?thesis by (simp add: int16_def)
qed

lemma dataRow_dataRow_of:
  assumes "length args < 65536"
      and "\<forall>a. Some a \<in> set args \<longrightarrow> length (value2bytes a) < 4294967295"
  shows "dataRow (dataRow_of value2bytes args)
           = Some (map (argLen value2bytes) args, map (map_option value2bytes) args)"
proof -
  let ?v = "dataRow_of value2bytes args"
  let ?body = "concat (map (argBytes value2bytes) args)"
  let ?v1 = "?v\<lparr>Position := Position ?v + 2\<rparr>"
  have d: "drop (Position ?v) (Content ?v) = PutUint16 (length args) @ (?body @ [])"
    by (simp add: dataRow_of_def length_PutUint32)
  have p: "Position ?v \<le> length (Content ?v)"
    by (simp add: dataRow_of_def length_PutUint32)
  from int16_at [OF d p] have i: "int16 ?v = Some (word_of_nat (length args), ?v1)" .
  from assms(1) have u: "unat (word_of_nat (length args) :: 16 word) = length args"
    by (simp add: unat_of_nat)
  from drop_at [OF d p]
  have d1: "drop (Position ?v1) (Content ?v1) = ?body @ []" and p1: "Position ?v1 \<le> length (Content ?v1)"
    by (simp_all add: PutUint16_def)
  from dataRow_loop_argBytes [OF assms(2) d1 p1, of "[]" "[]"] i u
  show ?thesis by (simp add: dataRow_def)
qed

lemma bytes_length: "bytes v n = Some (b, v') \<Longrightarrow> length b = n"
  by (auto simp: bytes_def split: if_splits)

lemma dataRow_loop_columns:
  "dataRow_loop k v rowLen row = Some (rowLen', row') \<Longrightarrow>
   list_all2 (\<lambda>l x. (x = None \<longleftrightarrow> l = 4294967295) \<and> (\<forall>b. x = Some b \<longrightarrow> length b = unat l)) rowLen row \<Longrightarrow>
   list_all2 (\<lambda>l x. (x = None \<longleftrightarrow> l = 4294967295) \<and> (\<forall>b. x = Some b \<longrightarrow> length b = unat l)) rowLen' row'"
proof (induction k arbitrary: v rowLen row)
  case 0
  then show ?case by simp
next
  case (Suc k)
  from Suc.prems(1) obtain l v1 where i: "int32 v = Some (l, v1)"
    by (auto split: option.splits)
  show ?case
  proof (cases "l = 4294967295")
    case True
    with Suc.prems i have "dataRow_loop k v1 (rowLen @ [l]) (row @ [None]) = Some (rowLen', row')"
      by simp
    moreover from True Suc.prems(2)
    have "list_all2 (\<lambda>l x. (x = None \<longleftrightarrow> l = 4294967295) \<and> (\<forall>b. x = Some b \<longrightarrow> length b = unat l))
            (rowLen @ [l]) (row @ [None])"
      by (simp add: list_all2_appendI)
    ultimately show ?thesis by (rule Suc.IH)
  next
    case False
    with Suc.prems(1) i obtain b v2 where b: "bytes v1 (unat l) = Some (b, v2)"
      and r: "dataRow_loop k v2 (rowLen @ [l]) (row @ [Some b]) = Some (rowLen', row')"
      by (auto split: option.splits)
    from False bytes_length [OF b] Suc.prems(2)
    have "list_all2 (\<lambda>l x. (x = None \<longleftrightarrow> l = 4294967295) \<and> (\<forall>b. x = Some b \<longrightarrow> length b = unat l))
            (rowLen @ [l]) (row @ [Some b])"
      by (simp add: list_all2_appendI)
    with r show ?thesis by (rule Suc.IH)
  qed
qed

text \<open>
  C7: NULL round-trips distinguishably. In the Bind serialisation a \<open>nil\<close> argument is
  written as the int32 \<open>-1\<close>, the bytes \<open>FF FF FF FF\<close>, with no value bytes. In the parsing
  of a DataRow the row and the length array have one entry per column; the value is
  absent exactly when the length is \<open>0xFFFFFFFF\<close>, a length 0 gives the present empty
  value, and a present value has as many bytes as its length says. And what Bind
  serialises for a list of arguments (fewer than 65536, each value shorter than
  \<open>0xFFFFFFFF\<close> bytes) is read back by the DataRow parser as the same values with their
  lengths, \<open>nil\<close> as \<open>nil\<close> with \<open>0xFFFFFFFF\<close>.
\<close>

theorem null_round_trip:
  "bindArgs value2bytes m (None # args)
     = bindArgs value2bytes (m\<lparr>Content := Content m @ [CHR 0xFF, CHR 0xFF, CHR 0xFF, CHR 0xFF]\<rparr>) args
   \<and> (dataRow v = Some (rowLen, row) \<longrightarrow>
        length rowLen = length row
        \<and> (\<forall>i<length row.
              (row ! i = None \<longleftrightarrow> rowLen ! i = 4294967295)
              \<and> (rowLen ! i = 0 \<longrightarrow> row ! i = Some [])
              \<and> (\<forall>b. row ! i = Some b \<longrightarrow> length b = unat (rowLen ! i))))
   \<and> (length args' < 65536 \<and> (\<forall>a. Some a \<in> set args' \<longrightarrow> length (value2bytes a) < 4294967295) \<longrightarrow>
        Content (bindArgs value2bytes (NewPgMessage IdentifiesBind) args')
          = concat (map (argBytes value2bytes) args')
        \<and> dataRow (dataRow_of value2bytes args')
          = Some (map (argLen value2bytes) args', map (map_option value2bytes) args'))"
proof (intro conjI impI)
  show "bindArgs value2bytes m (None # args)
     = bindArgs value2bytes (m\<lparr>Content := Content m @ [CHR 0xFF, CHR 0xFF, CHR 0xFF, CHR 0xFF]\<rparr>) args"
    by (simp add: addInt32_def addBytes_def PutUint32_minus_one [simplified])
next
  assume d: "dataRow v = Some (rowLen, row)"
  then obtain n v' where "dataRow_loop n v' [] [] = Some (rowLen, row)"
    by (auto simp: dataRow_def split: option.splits)
  from dataRow_loop_columns [OF this]
  have a: "list_all2 (\<lambda>l x. (x = None \<longleftrightarrow> l = 4294967295) \<and> (\<forall>b. x = Some b \<longrightarrow> length b = unat l)) rowLen row"
    by simp
  then show "length rowLen = length row"
    by (rule list_all2_lengthD)
  show "\<forall>i<length row.
          (row ! i = None \<longleftrightarrow> rowLen ! i = 4294967295)
          \<and> (rowLen ! i = 0 \<longrightarrow> row ! i = Some [])
          \<and> (\<forall>b. row ! i = Some b \<longrightarrow> length b = unat (rowLen ! i))"
  proof (intro allI impI)
    fix i assume "i < length row"
    with a have p: "(row ! i = None \<longleftrightarrow> rowLen ! i = 4294967295)
        \<and> (\<forall>b. row ! i = Some b \<longrightarrow> length b = unat (rowLen ! i))"
      by (simp add: list_all2_conv_all_nth)
    have "row ! i = Some []" if z: "rowLen ! i = 0"
    proof (cases "row ! i")
      case None
      with p z show ?thesis by simp
    next
      case (Some b)
      with p z show ?thesis by simp
    qed
    with p show "(row ! i = None \<longleftrightarrow> rowLen ! i = 4294967295)
        \<and> (rowLen ! i = 0 \<longrightarrow> row ! i = Some [])
        \<and> (\<forall>b. row ! i = Some b \<longrightarrow> length b = unat (rowLen ! i))"
      by blast
  qed
next
  show "Content (bindArgs value2bytes (NewPgMessage IdentifiesBind) args')
          = concat (map (argBytes value2bytes) args')"
    by (simp add: bindArgs_Content NewPgMessage_def)
next
  assume "length args' < 65536 \<and> (\<forall>a. Some a \<in> set args' \<longrightarrow> length (value2bytes a) < 4294967295)"
  then show "dataRow (dataRow_of value2bytes args')
          = Some (map (argLen value2bytes) args', map (map_option value2bytes) args')"
    by (simp add: dataRow_dataRow_of)
qed

theorem null_round_trip_witness:
  "length [None, Some [], Some ''7''] < (65536 :: nat)
   \<and> dataRow (dataRow_of (\<lambda>s. s) [None, Some [], Some ''7''])
       = Some ([4294967295, 0, 1], [None, Some [], Some ''7''])
   \<and> Content (bindArgs (\<lambda>s. s) (NewPgMessage IdentifiesBind) [None, Some [], Some ''7''])
       = [CHR 0xFF, CHR 0xFF, CHR 0xFF, CHR 0xFF, CHR 0x00, CHR 0x00, CHR 0x00, CHR 0x00,
          CHR 0x00, CHR 0x00, CHR 0x00, CHR 0x01, CHR ''7'']
   \<and> length [4294967295, 0, 1 :: 32 word] = length [None, Some [], Some ''7'']
   \<and> ([None, Some [], Some ''7''] ! 0 = None \<longleftrightarrow> [4294967295, 0, 1 :: 32 word] ! 0 = 4294967295)
   \<and> [None, Some [], Some ''7''] ! 1 = Some []"
proof -
  let ?args = "[None, Some [], Some ''7''] :: string option list"
  have h: "length ?args < 65536 \<and> (\<forall>a. Some a \<in> set ?args \<longrightarrow> length ((\<lambda>s. s) a) < 4294967295)"
    by auto
  note t = null_round_trip [where value2bytes = "\<lambda>s. s" and args' = ?args
      and v = "dataRow_of (\<lambda>s. s) ?args" and rowLen = "[4294967295, 0, 1]" and row = ?args]
  from t [THEN conjunct2, THEN conjunct2, THEN mp, OF h]
  have d: "dataRow (dataRow_of (\<lambda>s. s) ?args) = Some ([4294967295, 0, 1], ?args)"
    and c: "Content (bindArgs (\<lambda>s. s) (NewPgMessage IdentifiesBind) ?args)
       = [CHR 0xFF, CHR 0xFF, CHR 0xFF, CHR 0xFF, CHR 0x00, CHR 0x00, CHR 0x00, CHR 0x00,
          CHR 0x00, CHR 0x00, CHR 0x00, CHR 0x01, CHR ''7'']"
    by (simp_all add: argLen_def argBytes_def PutUint32_def char_of_nat_bits)
  from t [THEN conjunct2, THEN conjunct1, THEN mp, OF d]
  have "length [4294967295, 0, 1 :: 32 word] = length ?args
     \<and> (?args ! 0 = None \<longleftrightarrow> [4294967295, 0, 1 :: 32 word] ! 0 = 4294967295)
     \<and> ?args ! 1 = Some []"
    by simp
  with h d c show ?thesis by simp
qed

end
